theory Spec2Isabelle
  imports Complex_Main "HOL-Library.Product_Lexorder" "HOL-Library.Multiset"
begin

section \<open>Floating-point values\<close>

text \<open>
  The notebook computes on Python/numpy floats. A float is a finite number, one of the two
  infinities, or NaN (which pandas also uses for a missing cell). Finite values are taken as
  exact reals: rounding, overflow to infinity and the sign of zero are not modelled. The
  operations below give the IEEE results for the special values.
\<close>

datatype pyfloat = Fin real | PInf | NInf | NaN

fun py_isnan :: "pyfloat \<Rightarrow> bool" where
  "py_isnan NaN = True"
| "py_isnan _ = False"

fun py_add :: "pyfloat \<Rightarrow> pyfloat \<Rightarrow> pyfloat" where
  "py_add (Fin a) (Fin b) = Fin (a + b)"
| "py_add NaN _ = NaN"
| "py_add _ NaN = NaN"
| "py_add PInf NInf = NaN"
| "py_add NInf PInf = NaN"
| "py_add PInf _ = PInf"
| "py_add _ PInf = PInf"
| "py_add NInf _ = NInf"
| "py_add _ NInf = NInf"

fun py_sub :: "pyfloat \<Rightarrow> pyfloat \<Rightarrow> pyfloat" where
  "py_sub (Fin a) (Fin b) = Fin (a - b)"
| "py_sub NaN _ = NaN"
| "py_sub _ NaN = NaN"
| "py_sub PInf PInf = NaN"
| "py_sub NInf NInf = NaN"
| "py_sub PInf _ = PInf"
| "py_sub _ PInf = NInf"
| "py_sub NInf _ = NInf"
| "py_sub _ NInf = PInf"

fun py_mul :: "pyfloat \<Rightarrow> pyfloat \<Rightarrow> pyfloat" where
  "py_mul (Fin a) (Fin b) = Fin (a * b)"
| "py_mul NaN _ = NaN"
| "py_mul _ NaN = NaN"
| "py_mul PInf (Fin b) = (if b = 0 then NaN else if 0 < b then PInf else NInf)"
| "py_mul NInf (Fin b) = (if b = 0 then NaN else if 0 < b then NInf else PInf)"
| "py_mul (Fin a) PInf = (if a = 0 then NaN else if 0 < a then PInf else NInf)"
| "py_mul (Fin a) NInf = (if a = 0 then NaN else if 0 < a then NInf else PInf)"
| "py_mul PInf PInf = PInf"
| "py_mul PInf NInf = NInf"
| "py_mul NInf PInf = NInf"
| "py_mul NInf NInf = PInf"

text \<open>Float division: a zero divisor gives an infinity (or NaN for 0/0), it does not raise.\<close>

fun py_div :: "pyfloat \<Rightarrow> pyfloat \<Rightarrow> pyfloat" where
  "py_div (Fin a) (Fin b) =
     (if b \<noteq> 0 then Fin (a / b) else if a = 0 then NaN else if 0 < a then PInf else NInf)"
| "py_div NaN _ = NaN"
| "py_div _ NaN = NaN"
| "py_div (Fin a) PInf = Fin 0"
| "py_div (Fin a) NInf = Fin 0"
| "py_div PInf (Fin b) = (if 0 \<le> b then PInf else NInf)"
| "py_div NInf (Fin b) = (if 0 \<le> b then NInf else PInf)"
| "py_div PInf PInf = NaN"
| "py_div PInf NInf = NaN"
| "py_div NInf PInf = NaN"
| "py_div NInf NInf = NaN"

text \<open>\<^verbatim>\<open>10.0 ** x\<close>\<close>

fun py_pow10 :: "pyfloat \<Rightarrow> pyfloat" where
  "py_pow10 (Fin x) = Fin (10 powr x)"
| "py_pow10 PInf = PInf"
| "py_pow10 NInf = Fin 0"
| "py_pow10 NaN = NaN"

text \<open>\<^verbatim>\<open>x ** 2\<close>\<close>

definition py_square :: "pyfloat \<Rightarrow> pyfloat" where
  "py_square x = py_mul x x"

text \<open>\<^verbatim>\<open>np.sqrt\<close>: NaN on a negative argument (with a warning, not an exception).\<close>

fun np_sqrt :: "pyfloat \<Rightarrow> pyfloat" where
  "np_sqrt (Fin x) = (if x < 0 then NaN else Fin (sqrt x))"
| "np_sqrt PInf = PInf"
| "np_sqrt NInf = NaN"
| "np_sqrt NaN = NaN"

text \<open>The comparison \<^verbatim>\<open>a <= b\<close>: false as soon as one side is NaN.\<close>

fun py_le :: "pyfloat \<Rightarrow> pyfloat \<Rightarrow> bool" where
  "py_le (Fin a) (Fin b) = (a \<le> b)"
| "py_le NaN _ = False"
| "py_le _ NaN = False"
| "py_le NInf _ = True"
| "py_le _ PInf = True"
| "py_le PInf _ = False"
| "py_le _ NInf = False"

section \<open>Band labels\<close>

text \<open>
  \<^verbatim>\<open>"%.1f-%.1f" % (fmin, fmax)\<close>. The conversion \<^verbatim>\<open>%.1f\<close> rounds the exact value of the
  float to one decimal, ties to even, and prints the sign of a negative number also when it
  rounds to zero.
\<close>

fun str_nat :: "nat \<Rightarrow> string" where
  "str_nat n =
     (if n < 10 then [''0123456789'' ! n]
      else str_nat (n div 10) @ [''0123456789'' ! (n mod 10)])"

declare str_nat.simps [simp del]

definition round_half_even :: "real \<Rightarrow> int" where
  "round_half_even r =
     (let k = \<lfloor>r\<rfloor>; fr = r - of_int k
      in if fr < 1 / 2 then k else if 1 / 2 < fr then k + 1
         else if even k then k else k + 1)"

fun format_1f :: "pyfloat \<Rightarrow> string" where
  "format_1f (Fin x) =
     (let n = nat (round_half_even (\<bar>x\<bar> * 10))
      in (if x < 0 then ''-'' else '''') @ str_nat (n div 10) @ ''.'' @ str_nat (n mod 10))"
| "format_1f PInf = ''inf''"
| "format_1f NInf = ''-inf''"
| "format_1f NaN = ''nan''"

definition band_label :: "pyfloat \<Rightarrow> pyfloat \<Rightarrow> string" where
  "band_label fmin fmax = format_1f fmin @ ''-'' @ format_1f fmax"

section \<open>Tables and series\<close>

text \<open>
  A pandas DataFrame: the row labels and the columns in their order, each column a label and
  its cells from the first row to the last. A Series: its labels and its values.
\<close>

record ('i, 'c) dataframe =
  index :: "'i list"
  cols :: "('c \<times> pyfloat list) list"

record 'k series =
  s_index :: "'k list"
  s_values :: "pyfloat list"

text \<open>
  Every column of a pandas table has one cell for each row. The lists of this model do not
  enforce it, so the theorems that read cells assume it.
\<close>

definition well_formed :: "('i, 'c) dataframe \<Rightarrow> bool" where
  "well_formed d = list_all (\<lambda>c. length (snd c) = length (index d)) (cols d)"

text \<open>\<^verbatim>\<open>d.dropna(axis=1, how='all')\<close>: keeps the columns that hold a cell which is not NaN.\<close>

definition dropna_all :: "('i, 'c) dataframe \<Rightarrow> ('i, 'c) dataframe" where
  "dropna_all d = d\<lparr>cols := filter (\<lambda>c. list_ex (\<lambda>v. \<not> py_isnan v) (snd c)) (cols d)\<rparr>"

text \<open>\<^verbatim>\<open>d.iloc[:, ix]\<close>: the columns at the positions \<open>ix\<close>.\<close>

definition iloc_cols :: "('i, 'c) dataframe \<Rightarrow> nat list \<Rightarrow> ('i, 'c) dataframe" where
  "iloc_cols d ix = d\<lparr>cols := map (\<lambda>i. cols d ! i) ix\<rparr>"

text \<open>An operation on every cell, as \<^verbatim>\<open>spec / 10.\<close> and \<^verbatim>\<open>10.0 ** spec\<close>.\<close>

definition map_cells :: "(pyfloat \<Rightarrow> pyfloat) \<Rightarrow> ('i, 'c) dataframe \<Rightarrow> ('i, 'c) dataframe" where
  "map_cells g d = d\<lparr>cols := map (\<lambda>c. (fst c, map g (snd c))) (cols d)\<rparr>"

text \<open>
  \<^verbatim>\<open>frame / w\<close> for a one-dimensional \<open>w\<close> with one entry for each column: every cell of the
  k-th column is divided by the k-th entry. (pandas raises when the lengths differ; in
  \<^verbatim>\<open>df_rms\<close> both come from the same selection \<^verbatim>\<open>ix\<close>, so they never do.)
\<close>

definition div_columns :: "('i, 'c) dataframe \<Rightarrow> pyfloat list \<Rightarrow> ('i, 'c) dataframe" where
  "div_columns d w = d\<lparr>cols := map2 (\<lambda>c wk. (fst c, map (\<lambda>v. py_div v wk) (snd c))) (cols d) w\<rparr>"

text \<open>
  \<^verbatim>\<open>frame.apply(fn, axis=1)\<close>: \<open>fn\<close> receives each row as a Series labelled by the columns;
  the results form a Series labelled by the rows. (On a frame without columns pandas calls
  \<open>fn\<close> once on an empty Series and repeats its result for every row, which is the same
  Series.)
\<close>

definition apply_rows :: "('c series \<Rightarrow> pyfloat) \<Rightarrow> ('i, 'c) dataframe \<Rightarrow> 'i series" where
  "apply_rows fn d =
     \<lparr>s_index = index d,
      s_values = map (\<lambda>i. fn \<lparr>s_index = map fst (cols d), s_values = map (\<lambda>c. snd c ! i) (cols d)\<rparr>)
                     [0..<length (index d)]\<rparr>"

section \<open>The RMS extraction\<close>

text \<open>
  \<^verbatim>\<open>np.diff(a)\<close> is \<^verbatim>\<open>a[1:] - a[:-1]\<close>. \<^verbatim>\<open>np.sum\<close> of no element is 0; the order in which
  numpy adds the elements does not change an exact sum.
\<close>

definition np_diff :: "pyfloat list \<Rightarrow> pyfloat list" where
  "np_diff a = map2 py_sub (tl a) (butlast a)"

definition np_sum :: "pyfloat list \<Rightarrow> pyfloat" where
  "np_sum a = foldl py_add (Fin 0) a"

text \<open>\<^verbatim>\<open>np.trapz(y, x)\<close> computes \<^verbatim>\<open>(d * (y[1:] + y[:-1]) / 2.0).sum()\<close> with \<^verbatim>\<open>d = diff(x)\<close>.\<close>

definition trapz :: "pyfloat list \<Rightarrow> pyfloat list \<Rightarrow> pyfloat" where
  "trapz y x =
     (let d = np_diff x
      in np_sum (map (\<lambda>v. py_div v (Fin 2)) (map2 py_mul d (map2 py_add (tl y) (butlast y)))))"

definition dfrms :: "pyfloat series \<Rightarrow> pyfloat" where
  "dfrms a = np_sqrt (trapz (s_values a) (s_index a))"

text \<open>
  Assignment \<^verbatim>\<open>RMS[key] = value\<close> to a Python dict: a key already present keeps its place and
  takes the new value, a new key goes to the end.
\<close>

fun dict_set :: "('k \<times> 'v) list \<Rightarrow> 'k \<Rightarrow> 'v \<Rightarrow> ('k \<times> 'v) list" where
  "dict_set [] k v = [(k, v)]"
| "dict_set ((k', v') # kvs) k v =
     (if k' = k then (k, v) # kvs else (k', v') # dict_set kvs k v)"

text \<open>
  The body of the loop of \<^verbatim>\<open>df_rms\<close> for one band, on the table \<open>d\<close> already cleaned by
  \<^verbatim>\<open>dropna\<close>: the Series stored under the band's label.
\<close>

definition band_series ::
  "('i, pyfloat) dataframe \<Rightarrow> pyfloat \<times> pyfloat \<Rightarrow> string \<Rightarrow> 'i series" where
  "band_series d band output =
     (let fmin = fst band; fmax = snd band;
          ix = filter (\<lambda>i. py_le fmin (fst (cols d ! i)) \<and> py_le (fst (cols d ! i)) fmax)
                      [0..<length (cols d)];
          spec = iloc_cols d ix;
          f = map (\<lambda>i. fst (cols d ! i)) ix;
          w2f = map (\<lambda>fk. py_mul (py_mul (Fin 2) (Fin pi)) fk) f;
          amp = map_cells py_pow10 (map_cells (\<lambda>v. py_div v (Fin 10)) spec)
      in if output = ''ACC'' then apply_rows dfrms amp
         else let vamp = div_columns amp (map py_square w2f)
              in if output = ''VEL'' then apply_rows dfrms vamp
                 else let damp = div_columns vamp (map py_square w2f)
                      in apply_rows dfrms damp)"

text \<open>
  The loop \<^verbatim>\<open>for fmin, fmax in freqs\<close>: the dict \<^verbatim>\<open>RMS\<close> after the loop has run over
  \<open>freqs\<close>, from the dict \<open>R0\<close> before it.
\<close>

definition rms_dict ::
  "('i, pyfloat) dataframe \<Rightarrow> (pyfloat \<times> pyfloat) list \<Rightarrow> string \<Rightarrow>
   (string \<times> 'i series) list \<Rightarrow> (string \<times> 'i series) list" where
  "rms_dict d freqs output R0 =
     foldl (\<lambda>R band. dict_set R (band_label (fst band) (snd band)) (band_series d band output))
           R0 freqs"

text \<open>
  \<^verbatim>\<open>df_rms(d, freqs, output)\<close>. The result \<^verbatim>\<open>pd.DataFrame(RMS, index=d.index)\<close> has the
  dict's keys as columns, in the dict's order, and the rows of the cleaned table; every
  Series of the dict is labelled by these rows already. The function has no \<^verbatim>\<open>raise\<close> and
  checks none of its arguments.
\<close>

definition df_rms ::
  "('i, pyfloat) dataframe \<Rightarrow> (pyfloat \<times> pyfloat) list \<Rightarrow> string \<Rightarrow> ('i, string) dataframe" where
  "df_rms d0 freqs output =
     (let d = dropna_all d0;
          RMS = rms_dict d freqs output []
      in \<lparr>index = index d, cols = map (\<lambda>kv. (fst kv, s_values (snd kv))) RMS\<rparr>)"

text \<open>The call \<^verbatim>\<open>df_rms(d, freqs)\<close> binds the default \<^verbatim>\<open>output="VEL"\<close>.\<close>

definition df_rms_default ::
  "('i, pyfloat) dataframe \<Rightarrow> (pyfloat \<times> pyfloat) list \<Rightarrow> ('i, string) dataframe" where
  "df_rms_default d0 freqs = df_rms d0 freqs ''VEL''"

text \<open>
  The caller sorts the columns by frequency before the extraction
  (\<^verbatim>\<open>data.sort_index(axis=1)\<close>, NaN labels last) and asks for \<^verbatim>\<open>output="DISP"\<close>. Columns
  with equal labels keep their order here; with unique labels every sort gives this result.
\<close>

fun sort_rank :: "pyfloat \<Rightarrow> nat \<times> real" where
  "sort_rank NInf = (0, 0)"
| "sort_rank (Fin x) = (1, x)"
| "sort_rank PInf = (2, 0)"
| "sort_rank NaN = (3, 0)"

definition sort_index_columns :: "('i, pyfloat) dataframe \<Rightarrow> ('i, pyfloat) dataframe" where
  "sort_index_columns d = d\<lparr>cols := sort_key (\<lambda>c. sort_rank (fst c)) (cols d)\<rparr>"

definition freqs_of_interest :: "(pyfloat \<times> pyfloat) list" where
  "freqs_of_interest =
     [(Fin (1 / 10), Fin 1), (Fin 1, Fin 20), (Fin 4, Fin 14), (Fin 4, Fin 20)]"

definition displacement_RMS :: "('i, pyfloat) dataframe \<Rightarrow> ('i, string) dataframe" where
  "displacement_RMS data = df_rms (sort_index_columns data) freqs_of_interest ''DISP''"

definition band_labels :: "(pyfloat \<times> pyfloat) list \<Rightarrow> string list" where
  "band_labels freqs = map (\<lambda>band. band_label (fst band) (snd band)) freqs"

text \<open>
  The cell of a result table in the column labelled \<open>l\<close> at row position \<open>i\<close>
  (\<^verbatim>\<open>t[l].iloc[i]\<close>); \<open>None\<close> where the label or the position does not exist.
\<close>

definition rms_value :: "('i, string) dataframe \<Rightarrow> string \<Rightarrow> nat \<Rightarrow> pyfloat option" where
  "rms_value t l i =
     (case map_of (cols t) l of
        None \<Rightarrow> None
      | Some s \<Rightarrow> if i < length s then Some (s ! i) else None)"

section \<open>The computation as the specification words it\<close>

text \<open>
  Row by row: the selected columns are those with \<open>fmin \<le> f \<le> fmax\<close>; a decibel value
  \<open>b\<close> becomes the power \<open>10 ^ (b / 10)\<close>, divided by \<open>(2 \<pi> f)\<^sup>2\<close> once for velocity and
  twice for displacement; the row is integrated over the selected frequencies by the
  trapezoidal rule, and the square root is taken.
\<close>

datatype unit_kind = ACCELERATION | VELOCITY | DISPLACEMENT

definition spec_power :: "unit_kind \<Rightarrow> pyfloat \<Rightarrow> pyfloat \<Rightarrow> pyfloat" where
  "spec_power u f b =
     (let power = py_pow10 (py_div b (Fin 10));
          w2 = py_square (py_mul (Fin (2 * pi)) f)
      in case u of
           ACCELERATION \<Rightarrow> power
         | VELOCITY \<Rightarrow> py_div power w2
         | DISPLACEMENT \<Rightarrow> py_div (py_div power w2) w2)"

fun spec_trapezoid :: "(pyfloat \<times> pyfloat) list \<Rightarrow> pyfloat" where
  "spec_trapezoid ((x0, y0) # (x1, y1) # ps) =
     py_add (py_div (py_mul (py_sub x1 x0) (py_add y0 y1)) (Fin 2))
            (spec_trapezoid ((x1, y1) # ps))"
| "spec_trapezoid _ = Fin 0"

definition spec_rms ::
  "('i, pyfloat) dataframe \<Rightarrow> pyfloat \<Rightarrow> pyfloat \<Rightarrow> unit_kind \<Rightarrow> nat \<Rightarrow> pyfloat" where
  "spec_rms d fmin fmax u i =
     (let selected = filter (\<lambda>c. py_le fmin (fst c) \<and> py_le (fst c) fmax) (cols d)
      in np_sqrt (spec_trapezoid (map (\<lambda>c. (fst c, spec_power u (fst c) (snd c ! i))) selected)))"

definition spec_series ::
  "('i, pyfloat) dataframe \<Rightarrow> pyfloat \<Rightarrow> pyfloat \<Rightarrow> unit_kind \<Rightarrow> pyfloat list" where
  "spec_series d fmin fmax u = map (spec_rms d fmin fmax u) [0..<length (index d)]"

text \<open>The unit that \<^verbatim>\<open>df_rms\<close> computes for a value of its argument \<^verbatim>\<open>output\<close>.\<close>

definition unit_of :: "string \<Rightarrow> unit_kind" where
  "unit_of output =
     (if output = ''ACC'' then ACCELERATION
      else if output = ''VEL'' then VELOCITY else DISPLACEMENT)"

section \<open>Example tables\<close>

text \<open>
  One row, two columns at 1 Hz and 2 Hz holding -100 dB and -110 dB; and a table of two rows
  whose column at 1.5 Hz is missing in every row; a table with one missing cell; and the
  first table with its columns in descending order.
\<close>

definition example_psd :: "(nat, pyfloat) dataframe" where
  "example_psd = \<lparr>index = [0], cols = [(Fin 1, [Fin (- 100)]), (Fin 2, [Fin (- 110)])]\<rparr>"

definition example_gap :: "(nat, pyfloat) dataframe" where
  "example_gap =
     \<lparr>index = [0, 1],
      cols = [(Fin 1, [Fin (- 100), Fin (- 120)]),
              (Fin (3 / 2), [NaN, NaN]),
              (Fin 2, [Fin (- 110), Fin (- 130)])]\<rparr>"

definition example_partial :: "(nat, pyfloat) dataframe" where
  "example_partial =
     \<lparr>index = [0, 1],
      cols = [(Fin 1, [NaN, Fin (- 100)]), (Fin 2, [Fin (- 110), Fin (- 110)])]\<rparr>"

definition example_unsorted :: "(nat, pyfloat) dataframe" where
  "example_unsorted = \<lparr>index = [0], cols = [(Fin 2, [Fin (- 110)]), (Fin 1, [Fin (- 100)])]\<rparr>"

section \<open>Arithmetic of the special values\<close>

text \<open>The equations that compute the label of a band with concrete bounds.\<close>

lemmas label_eval = band_label_def round_half_even_def str_nat.simps

lemma py_add_commute: "py_add a b = py_add b a"
  by (cases a; cases b) simp_all

lemma py_add_assoc: "py_add (py_add a b) c = py_add a (py_add b c)"
  by (cases a; cases b; cases c) simp_all

lemma py_add_zero [simp]: "py_add (Fin 0) a = a"
  by (cases a) simp_all

lemma py_le_trans: "py_le a b \<Longrightarrow> py_le b c \<Longrightarrow> py_le a c"
  by (cases a; cases b; cases c) simp_all

lemma py_le_antisym: "py_le a b \<Longrightarrow> py_le b a \<Longrightarrow> a = b"
  by (cases a; cases b) simp_all

section \<open>The dict of the loop\<close>

lemma map_of_dict_set: "map_of (dict_set R k v) = (map_of R)(k \<mapsto> v)"
  by (induction R) (auto simp: fun_eq_iff)

lemma keys_dict_set:
  "map fst (dict_set R k v) = (if k \<in> fst ` set R then map fst R else map fst R @ [k])"
proof (induction R)
  case Nil
  show ?case by simp
next
  case (Cons p R)
  show ?case
  proof (cases "fst p = k")
    case True
    then show ?thesis by (cases p) simp
  next
    case False
    with Cons show ?thesis by (cases p) auto
  qed
qed

lemma distinct_dict_set: "distinct (map fst R) \<Longrightarrow> distinct (map fst (dict_set R k v))"
  by (simp add: keys_dict_set)

lemma dict_set_keys_set: "fst ` set (dict_set R k v) = insert k (fst ` set R)"
proof -
  have "set (map fst (dict_set R k v)) = insert k (fst ` set R)"
    unfolding keys_dict_set by auto
  then show ?thesis by simp
qed

lemma find_append_cases:
  "find P (xs @ ys) = (case find P xs of None \<Rightarrow> find P ys | Some x \<Rightarrow> Some x)"
  by (induction xs) auto

lemma rms_dict_lookup:
  "map_of (rms_dict d freqs output R0) l =
     (case find (\<lambda>b. band_label (fst b) (snd b) = l) (rev freqs) of
        None \<Rightarrow> map_of R0 l
      | Some b \<Rightarrow> Some (band_series d b output))"
  unfolding rms_dict_def
proof (induction freqs arbitrary: R0)
  case Nil
  show ?case by simp
next
  case (Cons b freqs)
  show ?case
    by (simp add: Cons.IH map_of_dict_set find_append_cases split: option.splits)
qed

lemma rms_dict_distinct:
  "distinct (map fst R0) \<Longrightarrow> distinct (map fst (rms_dict d freqs output R0))"
  unfolding rms_dict_def
  by (induction freqs arbitrary: R0) (simp_all add: distinct_dict_set)

lemma rms_dict_keys:
  "fst ` set (rms_dict d freqs output R0) =
     fst ` set R0 \<union> (\<lambda>b. band_label (fst b) (snd b)) ` set freqs"
  unfolding rms_dict_def
proof (induction freqs arbitrary: R0)
  case Nil
  show ?case by simp
next
  case (Cons b freqs)
  show ?case
    using Cons.IH [of "dict_set R0 (band_label (fst b) (snd b)) (band_series d b output)"]
    by (auto simp: dict_set_keys_set)
qed

lemma df_rms_cols:
  "cols (df_rms d freqs output) =
     map (\<lambda>kv. (fst kv, s_values (snd kv))) (rms_dict (dropna_all d) freqs output [])"
  by (simp add: df_rms_def Let_def)

lemma df_rms_index: "index (df_rms d freqs output) = index d"
  by (simp add: df_rms_def Let_def dropna_all_def)

lemma map_of_map_snd:
  "map_of (map (\<lambda>kv. (fst kv, g (snd kv))) R) l = map_option g (map_of R l)"
  by (induction R) auto

lemma df_rms_lookup:
  "map_of (cols (df_rms d freqs output)) l =
     (case find (\<lambda>b. band_label (fst b) (snd b) = l) (rev freqs) of
        None \<Rightarrow> None
      | Some b \<Rightarrow> Some (s_values (band_series (dropna_all d) b output)))"
  by (simp add: df_rms_cols map_of_map_snd rms_dict_lookup split: option.splits)

lemma df_rms_labels_distinct: "distinct (map fst (cols (df_rms d freqs output)))"
  by (simp add: df_rms_cols comp_def rms_dict_distinct)

lemma length_band_series [simp]:
  "length (s_values (band_series d band output)) = length (index d)"
  by (simp add: band_series_def Let_def apply_rows_def iloc_cols_def map_cells_def div_columns_def)

section \<open>Selection by position\<close>

lemma nth_filter_upt: "map (\<lambda>i. xs ! i) (filter (\<lambda>i. P (xs ! i)) [0..<length xs]) = filter P xs"
proof (induction xs rule: rev_induct)
  case Nil
  show ?case by simp
next
  case (snoc x xs)
  have "map (\<lambda>i. (xs @ [x]) ! i) (filter (\<lambda>i. P ((xs @ [x]) ! i)) [0..<length xs])
        = map (\<lambda>i. xs ! i) (filter (\<lambda>i. P (xs ! i)) [0..<length xs])"
    by (auto simp: nth_append intro!: map_cong filter_cong)
  with snoc show ?case by simp
qed

section \<open>The loop body computes the specified series\<close>

lemma foldl_py_add: "foldl py_add a ts = py_add a (foldl py_add (Fin 0) ts)"
proof (induction ts arbitrary: a)
  case Nil
  show ?case by (simp add: py_add_commute [of a])
next
  case (Cons t ts)
  show ?case
    by (simp add: Cons.IH [of "py_add a t"] Cons.IH [of t] py_add_assoc)
qed

lemma np_sum_Cons: "np_sum (t # ts) = py_add t (np_sum ts)"
  unfolding np_sum_def using foldl_py_add [of t ts] by simp

lemma np_sum_Nil [simp]: "np_sum [] = Fin 0"
  by (simp add: np_sum_def)

lemma trapz_spec_trapezoid: "trapz (map snd ps) (map fst ps) = spec_trapezoid ps"
proof (induction ps rule: spec_trapezoid.induct)
  case (1 x0 y0 x1 y1 ps)
  then show ?case
    by (simp add: trapz_def np_diff_def np_sum_Cons py_add_commute [of y1 y0])
qed (simp_all add: trapz_def np_diff_def)

lemma selected_cols:
  "map (\<lambda>i. cols d ! i) (filter (\<lambda>i. py_le fmin (fst (cols d ! i)) \<and> py_le (fst (cols d ! i)) fmax) [0..<length (cols d)])
   = filter (\<lambda>c. py_le fmin (fst c) \<and> py_le (fst c) fmax) (cols d)"
  using nth_filter_upt [of "cols d" "\<lambda>c. py_le fmin (fst c) \<and> py_le (fst c) fmax"] by simp

lemma selected_freqs:
  "map (\<lambda>i. fst (cols d ! i)) (filter (\<lambda>i. py_le fmin (fst (cols d ! i)) \<and> py_le (fst (cols d ! i)) fmax) [0..<length (cols d)])
   = map fst (filter (\<lambda>c. py_le fmin (fst c) \<and> py_le (fst c) fmax) (cols d))"
  using arg_cong [OF selected_cols [of d fmin fmax], of "map fst"] by (simp add: comp_def)

lemma map2_same: "map2 F (map G xs) (map H xs) = map (\<lambda>x. F (G x) (H x)) xs"
  by (induction xs) simp_all

lemma apply_rows_dfrms:
  assumes c: "cols D = map (\<lambda>c. (fst c, map (g (fst c)) (snd c))) sel"
    and ix: "index D = idx"
    and len: "\<And>c. c \<in> set sel \<Longrightarrow> length (snd c) = length idx"
  shows "s_values (apply_rows dfrms D) =
         map (\<lambda>i. np_sqrt (spec_trapezoid (map (\<lambda>c. (fst c, g (fst c) (snd c ! i))) sel)))
             [0..<length idx]"
proof -
  have "dfrms \<lparr>s_index = map fst (cols D), s_values = map (\<lambda>c. snd c ! i) (cols D)\<rparr>
        = np_sqrt (spec_trapezoid (map (\<lambda>c. (fst c, g (fst c) (snd c ! i))) sel))"
    if "i < length idx" for i
  proof -
    let ?ps = "map (\<lambda>c. (fst c, g (fst c) (snd c ! i))) sel"
    have "map fst (cols D) = map fst ?ps"
      by (simp add: c comp_def)
    moreover have "map (\<lambda>c. snd c ! i) (cols D) = map snd ?ps"
      using len that by (simp add: c comp_def)
    ultimately show ?thesis
      by (simp only: dfrms_def series.simps trapz_spec_trapezoid)
  qed
  then show ?thesis
    by (simp add: apply_rows_def ix)
qed

lemma band_series_values:
  assumes "well_formed d"
  shows "s_values (band_series d (fmin, fmax) output) = spec_series d fmin fmax (unit_of output)"
proof -
  let ?sel = "filter (\<lambda>c. py_le fmin (fst c) \<and> py_le (fst c) fmax) (cols d)"
  let ?ix = "filter (\<lambda>i. py_le fmin (fst (cols d ! i)) \<and> py_le (fst (cols d ! i)) fmax)
                    [0..<length (cols d)]"
  let ?w2 = "map py_square (map (\<lambda>fk. py_mul (py_mul (Fin 2) (Fin pi)) fk)
                                (map (\<lambda>i. fst (cols d ! i)) ?ix))"
  let ?amp = "map_cells py_pow10 (map_cells (\<lambda>v. py_div v (Fin 10)) (iloc_cols d ?ix))"
  let ?vamp = "div_columns ?amp ?w2"
  let ?damp = "div_columns ?vamp ?w2"
  have len: "\<And>c. c \<in> set ?sel \<Longrightarrow> length (snd c) = length (index d)"
    using assms by (auto simp: well_formed_def list_all_iff)
  have w2: "?w2 = map (\<lambda>c. py_square (py_mul (Fin (2 * pi)) (fst c))) ?sel"
    by (simp add: selected_freqs comp_def)
  have amp: "cols ?amp = map (\<lambda>c. (fst c, map (spec_power ACCELERATION (fst c)) (snd c))) ?sel"
    by (simp add: map_cells_def iloc_cols_def selected_cols spec_power_def comp_def)
  have vamp: "cols ?vamp = map (\<lambda>c. (fst c, map (spec_power VELOCITY (fst c)) (snd c))) ?sel"
    unfolding w2 by (simp add: div_columns_def amp map2_same) (simp add: spec_power_def)
  have damp: "cols ?damp = map (\<lambda>c. (fst c, map (spec_power DISPLACEMENT (fst c)) (snd c))) ?sel"
    unfolding w2
    by (simp add: div_columns_def [of "div_columns _ _"] vamp [unfolded w2] map2_same)
       (simp add: spec_power_def Let_def)
  have idx: "index ?amp = index d" "index ?vamp = index d" "index ?damp = index d"
    by (simp_all add: map_cells_def iloc_cols_def div_columns_def)
  have sp: "map (\<lambda>i. np_sqrt (spec_trapezoid
                        (map (\<lambda>c. (fst c, spec_power u (fst c) (snd c ! i))) ?sel)))
                [0..<length (index d)] = spec_series d fmin fmax u" for u
    by (simp add: spec_series_def spec_rms_def Let_def)
  consider "output = ''ACC''" | "output \<noteq> ''ACC''" "output = ''VEL''"
    | "output \<noteq> ''ACC''" "output \<noteq> ''VEL''" by blast
  then show ?thesis
  proof cases
    case 1
    then have "band_series d (fmin, fmax) output = apply_rows dfrms ?amp"
      by (simp add: band_series_def Let_def comp_def)
    moreover have "s_values (apply_rows dfrms ?amp) = spec_series d fmin fmax ACCELERATION"
      unfolding sp [symmetric] by (rule apply_rows_dfrms [OF amp idx(1)]) (rule len)
    moreover have "unit_of output = ACCELERATION"
      using 1 by (simp add: unit_of_def)
    ultimately show ?thesis by (simp only:)
  next
    case 2
    then have "band_series d (fmin, fmax) output = apply_rows dfrms ?vamp"
      by (simp add: band_series_def Let_def comp_def)
    moreover have "s_values (apply_rows dfrms ?vamp) = spec_series d fmin fmax VELOCITY"
      unfolding sp [symmetric] by (rule apply_rows_dfrms [OF vamp idx(2)]) (rule len)
    moreover have "unit_of output = VELOCITY"
      using 2 by (simp add: unit_of_def)
    ultimately show ?thesis by (simp only:)
  next
    case 3
    then have "band_series d (fmin, fmax) output = apply_rows dfrms ?damp"
      by (simp add: band_series_def Let_def comp_def)
    moreover have "s_values (apply_rows dfrms ?damp) = spec_series d fmin fmax DISPLACEMENT"
      unfolding sp [symmetric] by (rule apply_rows_dfrms [OF damp idx(3)]) (rule len)
    moreover have "unit_of output = DISPLACEMENT"
      using 3 by (simp add: unit_of_def)
    ultimately show ?thesis by (simp only:)
  qed
qed

section \<open>The columns of the result\<close>

lemma find_SomeD: "find P xs = Some y \<Longrightarrow> y \<in> set xs \<and> P y"
  by (induction xs) (auto split: if_splits)

lemma find_last:
  assumes "\<forall>b\<in>set post. f b \<noteq> l" and "f b2 = l"
  shows "find (\<lambda>b. f b = l) (rev (pre @ b2 # post)) = Some b2"
proof -
  have "find (\<lambda>b. f b = l) (rev post) = None"
    using assms(1) by (simp add: find_None_iff)
  then show ?thesis
    using assms(2) by (simp add: find_append_cases)
qed

lemma find_last_distinct:
  assumes "distinct (map f xs)" and "x \<in> set xs"
  shows "find (\<lambda>b. f b = f x) (rev xs) = Some x"
proof -
  obtain pre post where xs: "xs = pre @ x # post"
    using assms(2) by (auto simp: in_set_conv_decomp)
  have "\<forall>b\<in>set post. f b \<noteq> f x"
    using assms(1) unfolding xs by (auto simp: image_iff)
  then show ?thesis
    unfolding xs by (rule find_last) simp
qed

lemma well_formed_dropna: "well_formed d \<Longrightarrow> well_formed (dropna_all d)"
  by (simp add: well_formed_def dropna_all_def list_all_iff)

lemma df_rms_band_column:
  assumes "(fmin, fmax) \<in> set freqs" and "distinct (band_labels freqs)"
  shows "map_of (cols (df_rms d freqs output)) (band_label fmin fmax)
         = Some (s_values (band_series (dropna_all d) (fmin, fmax) output))"
proof -
  have "find (\<lambda>b. band_label (fst b) (snd b) = band_label fmin fmax) (rev freqs) = Some (fmin, fmax)"
    using find_last_distinct [of "\<lambda>b. band_label (fst b) (snd b)" freqs "(fmin, fmax)"] assms
    by (simp add: band_labels_def)
  then show ?thesis
    by (simp add: df_rms_lookup)
qed

lemma df_rms_spec_column:
  assumes "well_formed d" and "(fmin, fmax) \<in> set freqs" and "distinct (band_labels freqs)"
  shows "map_of (cols (df_rms d freqs output)) (band_label fmin fmax)
         = Some (spec_series (dropna_all d) fmin fmax (unit_of output))"
  using assms by (simp add: df_rms_band_column band_series_values well_formed_dropna)

lemma df_rms_spec_value:
  assumes "well_formed d" and "(fmin, fmax) \<in> set freqs" and "distinct (band_labels freqs)"
    and "i < length (index d)"
  shows "rms_value (df_rms d freqs output) (band_label fmin fmax) i
         = Some (spec_rms (dropna_all d) fmin fmax (unit_of output) i)"
  using assms(4)
  by (simp add: rms_value_def df_rms_spec_column [OF assms(1-3)] spec_series_def dropna_all_def)

section \<open>Bands that select at most one column\<close>

lemma trapz_short: "length x \<le> 1 \<Longrightarrow> trapz y x = Fin 0"
  by (cases x) (simp_all add: trapz_def np_diff_def np_sum_def)

lemma apply_rows_short:
  assumes "length (cols D) \<le> 1"
  shows "s_values (apply_rows dfrms D) = replicate (length (index D)) (Fin 0)"
proof -
  have "dfrms \<lparr>s_index = map fst (cols D), s_values = ys\<rparr> = Fin 0" for ys
    using assms by (simp add: dfrms_def trapz_short)
  then show ?thesis
    by (simp add: apply_rows_def map_replicate_const)
qed

lemma band_series_short:
  assumes "length (filter (\<lambda>c. py_le fmin (fst c) \<and> py_le (fst c) fmax) (cols d)) \<le> 1"
  shows "s_values (band_series d (fmin, fmax) output) = replicate (length (index d)) (Fin 0)"
proof -
  let ?ix = "filter (\<lambda>i. py_le fmin (fst (cols d ! i)) \<and> py_le (fst (cols d ! i)) fmax)
                    [0..<length (cols d)]"
  let ?w2 = "map py_square (map (\<lambda>fk. py_mul (py_mul (Fin 2) (Fin pi)) fk)
                                (map (\<lambda>i. fst (cols d ! i)) ?ix))"
  let ?amp = "map_cells py_pow10 (map_cells (\<lambda>v. py_div v (Fin 10)) (iloc_cols d ?ix))"
  let ?vamp = "div_columns ?amp ?w2"
  let ?damp = "div_columns ?vamp ?w2"
  have "length ?ix = length (filter (\<lambda>c. py_le fmin (fst c) \<and> py_le (fst c) fmax) (cols d))"
    using arg_cong [OF selected_cols [of d fmin fmax], of length] by simp
  then have ix: "length ?ix \<le> 1"
    using assms by simp
  have l: "length (cols ?amp) \<le> 1" "length (cols ?vamp) \<le> 1" "length (cols ?damp) \<le> 1"
    using ix by (simp_all add: map_cells_def iloc_cols_def div_columns_def)
  have idx: "index ?amp = index d" "index ?vamp = index d" "index ?damp = index d"
    by (simp_all add: map_cells_def iloc_cols_def div_columns_def)
  have "band_series d (fmin, fmax) output = apply_rows dfrms ?amp
      \<or> band_series d (fmin, fmax) output = apply_rows dfrms ?vamp
      \<or> band_series d (fmin, fmax) output = apply_rows dfrms ?damp"
    by (simp add: band_series_def Let_def comp_def)
  then show ?thesis
    using apply_rows_short [OF l(1)] apply_rows_short [OF l(2)] apply_rows_short [OF l(3)]
    unfolding idx by auto
qed

section \<open>Lists with one key\<close>

lemma length_le_one_same_key:
  assumes "distinct (map f xs)" and "\<forall>x\<in>set xs. f x = k"
  shows "length xs \<le> 1"
proof (cases xs)
  case Nil
  then show ?thesis by simp
next
  case (Cons x ys)
  show ?thesis
  proof (cases ys)
    case Nil
    with Cons show ?thesis by simp
  next
    case (Cons y zs)
    with \<open>xs = x # ys\<close> assms have "f x = k" "f y = k" "f x \<noteq> f y"
      by auto
    then show ?thesis by simp
  qed
qed

lemma find_removeAll:
  assumes "\<not> P x"
  shows "find P (rev (removeAll x xs)) = find P (rev xs)"
  using assms by (induction xs) (auto simp: find_append_cases split: option.splits)

lemma count_distinct_key:
  assumes "distinct (map fst xs)" and "l \<in> fst ` set xs"
  shows "length (filter (\<lambda>c. fst c = l) xs) = 1"
  using assms
proof (induction xs)
  case Nil
  then show ?case by simp
next
  case (Cons x xs)
  show ?case
  proof (cases "fst x = l")
    case True
    with Cons.prems(1) have "filter (\<lambda>c. fst c = l) xs = []"
      by (auto simp: filter_empty_conv image_iff)
    with True show ?thesis by simp
  next
    case False
    with Cons show ?thesis by auto
  qed
qed

lemma inj_sort_rank: "inj sort_rank"
proof (rule injI)
  fix a b
  assume "sort_rank a = sort_rank b"
  then show "a = b" by (cases a; cases b) simp_all
qed

lemma np_sqrt_negative: "x < 0 \<Longrightarrow> np_sqrt (Fin x) = NaN"
  by simp

section \<open>Columns by label\<close>

lemma df_rms_labels:
  "set (map fst (cols (df_rms d freqs output))) = set (band_labels freqs)"
  using rms_dict_keys [of "dropna_all d" freqs "output" "[]"]
  by (simp add: df_rms_cols band_labels_def image_image)

lemma df_rms_last_column:
  assumes "freqs = pre @ [band] @ post"
    and "band_label (fst band) (snd band) \<notin> set (band_labels post)"
  shows "map_of (cols (df_rms d freqs output)) (band_label (fst band) (snd band))
         = Some (s_values (band_series (dropna_all d) band output))"
proof -
  have fr: "freqs = pre @ band # post"
    using assms(1) by simp
  have "\<forall>b\<in>set post. band_label (fst b) (snd b) \<noteq> band_label (fst band) (snd band)"
    using assms(2) by (force simp: band_labels_def image_iff)
  then have "find (\<lambda>b. band_label (fst b) (snd b) = band_label (fst band) (snd band)) (rev freqs)
             = Some band"
    unfolding fr by (rule find_last) (rule refl)
  then show ?thesis
    by (simp add: df_rms_lookup)
qed

lemma df_rms_other_labels:
  assumes "l \<noteq> band_label (fst band) (snd band)"
  shows "map_of (cols (df_rms d freqs output)) l
         = map_of (cols (df_rms d (removeAll band freqs) output)) l"
proof -
  have "\<not> (\<lambda>b. band_label (fst b) (snd b) = l) band"
    using assms by simp
  from find_removeAll [of "\<lambda>b. band_label (fst b) (snd b) = l", OF this]
  show ?thesis
    by (simp add: df_rms_lookup)
qed

section \<open>Monotonicity in the unit\<close>

lemma two_pi_gt_one: "1 < 2 * pi"
  using pi_ge_two by simp

lemma div_ge_one:
  fixes q w :: real
  assumes "0 \<le> q" and "1 \<le> w"
  shows "0 \<le> q / w" and "q / w \<le> q"
proof -
  have w: "0 < w" using assms(2) by simp
  show "0 \<le> q / w" using assms(1) w by simp
  have "q * 1 \<le> q * w"
    using assms by (intro mult_left_mono) simp_all
  then show "q / w \<le> q"
    using w by (simp add: pos_divide_le_eq)
qed

lemma spec_power_finite:
  assumes "1 \<le> x"
  shows "\<exists>a v e. spec_power ACCELERATION (Fin x) (Fin b) = Fin a
               \<and> spec_power VELOCITY (Fin x) (Fin b) = Fin v
               \<and> spec_power DISPLACEMENT (Fin x) (Fin b) = Fin e
               \<and> 0 \<le> e \<and> e \<le> v \<and> v \<le> a"
proof -
  define p where "p = 10 powr (b / 10)"
  define w where "w = (2 * pi * x) * (2 * pi * x)"
  have p: "0 \<le> p" by (simp add: p_def)
  have "1 * 1 \<le> (2 * pi) * x"
    using assms two_pi_gt_one by (intro mult_mono) simp_all
  then have x: "1 \<le> 2 * pi * x"
    by simp
  have "1 * 1 \<le> (2 * pi * x) * (2 * pi * x)"
    using x by (intro mult_mono) simp_all
  then have w: "1 \<le> w"
    unfolding w_def by simp
  have v: "p / w \<le> p" "0 \<le> p / w"
    using div_ge_one [OF p w] by simp_all
  have e: "p / w / w \<le> p / w" "0 \<le> p / w / w"
    using div_ge_one [OF v(2) w] by simp_all
  have wz: "w \<noteq> 0" using w by simp
  have "spec_power ACCELERATION (Fin x) (Fin b) = Fin p"
    "spec_power VELOCITY (Fin x) (Fin b) = Fin (p / w)"
    "spec_power DISPLACEMENT (Fin x) (Fin b) = Fin (p / w / w)"
    using wz by (simp_all add: spec_power_def py_square_def p_def w_def Let_def)
  with v e show ?thesis by blast
qed

lemma spec_trapezoid_mono:
  assumes "sorted_wrt (\<lambda>c c'. py_le (fst c) (fst c')) sel"
    and "\<forall>c\<in>set sel. \<exists>x a b. fst c = Fin x \<and> g c = Fin a \<and> h c = Fin b \<and> 0 \<le> a \<and> a \<le> b"
  shows "\<exists>s t. spec_trapezoid (map (\<lambda>c. (fst c, g c)) sel) = Fin s
             \<and> spec_trapezoid (map (\<lambda>c. (fst c, h c)) sel) = Fin t \<and> 0 \<le> s \<and> s \<le> t"
  using assms
proof (induction sel rule: induct_list012)
  case 1
  show ?case by simp
next
  case (2 c)
  show ?case by simp
next
  case (3 c0 c1 rest)
  obtain x0 a0 b0 where c0: "fst c0 = Fin x0" "g c0 = Fin a0" "h c0 = Fin b0" "0 \<le> a0" "a0 \<le> b0"
    using "3.prems"(2) by auto
  obtain x1 a1 b1 where c1: "fst c1 = Fin x1" "g c1 = Fin a1" "h c1 = Fin b1" "0 \<le> a1" "a1 \<le> b1"
    using "3.prems"(2) by auto
  have le: "x0 \<le> x1"
    using "3.prems"(1) c0 c1 by simp
  obtain s t where st: "spec_trapezoid (map (\<lambda>c. (fst c, g c)) (c1 # rest)) = Fin s"
      "spec_trapezoid (map (\<lambda>c. (fst c, h c)) (c1 # rest)) = Fin t" "0 \<le> s" "s \<le> t"
    using "3.IH"(2) "3.prems" by auto
  have m: "(x1 - x0) * (a0 + a1) \<le> (x1 - x0) * (b0 + b1)" "0 \<le> (x1 - x0) * (a0 + a1)"
    using le c0 c1 by (simp_all add: mult_left_mono)
  have "spec_trapezoid (map (\<lambda>c. (fst c, g c)) (c0 # c1 # rest)) = Fin ((x1 - x0) * (a0 + a1) / 2 + s)"
    using st(1) c0 c1 by simp
  moreover have "spec_trapezoid (map (\<lambda>c. (fst c, h c)) (c0 # c1 # rest)) = Fin ((x1 - x0) * (b0 + b1) / 2 + t)"
    using st(2) c0 c1 by simp
  moreover have "0 \<le> (x1 - x0) * (a0 + a1) / 2 + s"
    using m st by simp
  moreover have "(x1 - x0) * (a0 + a1) / 2 + s \<le> (x1 - x0) * (b0 + b1) / 2 + t"
    using m st by simp
  ultimately show ?case by blast
qed

lemma spec_rms_monotone:
  assumes srt: "sorted_wrt (\<lambda>c c'. py_le (fst c) (fst c')) (cols d)"
    and fin: "\<forall>c\<in>set (cols d). py_le fmin (fst c) \<and> py_le (fst c) fmax \<longrightarrow>
                (\<exists>x b. fst c = Fin x \<and> 1 \<le> x \<and> snd c ! i = Fin b)"
  shows "py_le (spec_rms d fmin fmax DISPLACEMENT i) (spec_rms d fmin fmax VELOCITY i)
       \<and> py_le (spec_rms d fmin fmax VELOCITY i) (spec_rms d fmin fmax ACCELERATION i)"
proof -
  let ?sel = "filter (\<lambda>c. py_le fmin (fst c) \<and> py_le (fst c) fmax) (cols d)"
  let ?g = "\<lambda>u c. spec_power u (fst c) (snd c ! i)"
  have srt': "sorted_wrt (\<lambda>c c'. py_le (fst c) (fst c')) ?sel"
    using srt by (rule sorted_wrt_filter)
  have pw: "\<exists>x a v e. fst c = Fin x \<and> ?g ACCELERATION c = Fin a \<and> ?g VELOCITY c = Fin v
               \<and> ?g DISPLACEMENT c = Fin e \<and> 0 \<le> e \<and> e \<le> v \<and> v \<le> a" if cm: "c \<in> set ?sel" for c
  proof -
    obtain x b where "fst c = Fin x" "1 \<le> x" "snd c ! i = Fin b"
      using fin cm by auto
    then show ?thesis
      using spec_power_finite [of x b] by auto
  qed
  have "\<forall>c\<in>set ?sel. \<exists>x a b. fst c = Fin x \<and> ?g DISPLACEMENT c = Fin a \<and> ?g VELOCITY c = Fin b \<and> 0 \<le> a \<and> a \<le> b"
    using pw by blast
  from spec_trapezoid_mono [OF srt' this]
  obtain s t where dv: "spec_trapezoid (map (\<lambda>c. (fst c, ?g DISPLACEMENT c)) ?sel) = Fin s"
      "spec_trapezoid (map (\<lambda>c. (fst c, ?g VELOCITY c)) ?sel) = Fin t" "0 \<le> s" "s \<le> t"
    by blast
  have "\<forall>c\<in>set ?sel. \<exists>x a b. fst c = Fin x \<and> ?g VELOCITY c = Fin a \<and> ?g ACCELERATION c = Fin b \<and> 0 \<le> a \<and> a \<le> b"
  proof
    fix c
    assume "c \<in> set ?sel"
    from pw [OF this] obtain x a v e where "fst c = Fin x" "?g ACCELERATION c = Fin a"
      "?g VELOCITY c = Fin v" "?g DISPLACEMENT c = Fin e" "0 \<le> e" "e \<le> v" "v \<le> a"
      by blast
    moreover from this have "0 \<le> v" by simp
    ultimately show "\<exists>x a b. fst c = Fin x \<and> ?g VELOCITY c = Fin a \<and> ?g ACCELERATION c = Fin b \<and> 0 \<le> a \<and> a \<le> b"
      by blast
  qed
  from spec_trapezoid_mono [OF srt' this]
  obtain t' r where va: "spec_trapezoid (map (\<lambda>c. (fst c, ?g VELOCITY c)) ?sel) = Fin t'"
      "spec_trapezoid (map (\<lambda>c. (fst c, ?g ACCELERATION c)) ?sel) = Fin r" "0 \<le> t'" "t' \<le> r"
    by blast
  have "t' = t" using dv(2) va(1) by simp
  then show ?thesis
    using dv va by (simp add: spec_rms_def Let_def)
qed

section \<open>Claims about \<^verbatim>\<open>df_rms\<close>\<close>

text \<open>
  C1. On a table whose columns each hold one cell per row, and for a band list with unique
  labels, the column that \<^verbatim>\<open>df_rms\<close> stores for a band \<open>(fmin, fmax)\<close> is the series of
  the specification: on the table cleaned of its entirely missing columns, the columns with
  \<open>fmin \<le> f \<le> fmax\<close> are selected, each decibel value becomes the power \<open>10 ^ (b / 10)\<close>,
  the power is divided by \<open>(2 \<pi> f)\<^sup>2\<close> twice for \<^verbatim>\<open>"DISP"\<close>, once for \<^verbatim>\<open>"VEL"\<close> and not at
  all for \<^verbatim>\<open>"ACC"\<close>, each row is integrated by the trapezoidal rule over the selected
  frequencies, and the square root is taken. This holds for every order of the columns, so
  in particular for columns sorted ascending.
\<close>

theorem df_rms_computes_spec:
  assumes "well_formed d" and "(fmin, fmax) \<in> set freqs" and "distinct (band_labels freqs)"
  shows "map_of (cols (df_rms d freqs ''DISP'')) (band_label fmin fmax)
           = Some (spec_series (dropna_all d) fmin fmax DISPLACEMENT)
       \<and> map_of (cols (df_rms d freqs ''VEL'')) (band_label fmin fmax)
           = Some (spec_series (dropna_all d) fmin fmax VELOCITY)
       \<and> map_of (cols (df_rms d freqs ''ACC'')) (band_label fmin fmax)
           = Some (spec_series (dropna_all d) fmin fmax ACCELERATION)"
  using assms
  by (simp add: df_rms_band_column band_series_values well_formed_dropna unit_of_def)

theorem df_rms_computes_spec_witness:
  "well_formed example_psd \<and> (Fin 1, Fin 20) \<in> set freqs_of_interest
   \<and> distinct (band_labels freqs_of_interest)
   \<and> map_of (cols (df_rms example_psd freqs_of_interest ''DISP'')) ''1.0-20.0''
       = Some (spec_series (dropna_all example_psd) (Fin 1) (Fin 20) DISPLACEMENT)
   \<and> map_of (cols (df_rms example_psd freqs_of_interest ''VEL'')) ''1.0-20.0''
       = Some (spec_series (dropna_all example_psd) (Fin 1) (Fin 20) VELOCITY)
   \<and> map_of (cols (df_rms example_psd freqs_of_interest ''ACC'')) ''1.0-20.0''
       = Some (spec_series (dropna_all example_psd) (Fin 1) (Fin 20) ACCELERATION)"
proof -
  have wf: "well_formed example_psd"
    by (simp add: well_formed_def example_psd_def)
  have mem: "(Fin 1, Fin 20) \<in> set freqs_of_interest"
    by (simp add: freqs_of_interest_def)
  have dist: "distinct (band_labels freqs_of_interest)"
    by (simp add: freqs_of_interest_def band_labels_def label_eval)
  have lab: "band_label (Fin 1) (Fin 20) = ''1.0-20.0''"
    by (simp add: label_eval)
  show ?thesis
    using df_rms_computes_spec [OF wf mem dist] wf mem dist by (simp only: lab simp_thms)
qed

text \<open>
  C7. The row index of the table returned by \<^verbatim>\<open>df_rms\<close> is the row index of its input,
  and every column of the result holds one value for each of these rows.
\<close>

theorem df_rms_keeps_row_index:
  "index (df_rms d freqs output) = index d \<and> well_formed (df_rms d freqs output)"
proof -
  have "\<exists>b. v = band_series (dropna_all d) b output"
    if "(k, v) \<in> set (rms_dict (dropna_all d) freqs output [])" for k v
  proof -
    have "map_of (rms_dict (dropna_all d) freqs output []) k = Some v"
      using that rms_dict_distinct [of "[]" "dropna_all d" freqs] by simp
    then show ?thesis
      by (auto simp: rms_dict_lookup split: option.splits)
  qed
  then have "length (s_values v) = length (index d)"
    if "(k, v) \<in> set (rms_dict (dropna_all d) freqs output [])" for k v
    using that by (fastforce simp: dropna_all_def)
  then show ?thesis
    by (auto simp: df_rms_index well_formed_def list_all_iff df_rms_cols)
qed

theorem df_rms_keeps_row_index_witness:
  "index (df_rms example_gap freqs_of_interest ''DISP'') = [0, 1]
   \<and> well_formed (df_rms example_gap freqs_of_interest ''DISP'')"
  using df_rms_keeps_row_index [of example_gap freqs_of_interest "''DISP''"]
  by (simp add: example_gap_def)

text \<open>
  C8. \<^verbatim>\<open>df_rms\<close> first drops every column that is missing (NaN) in all rows; hence a table
  with such a column, whatever its frequency, gives the same result as the table without it.
\<close>

theorem df_rms_drops_missing_columns:
  assumes "cols d = xs @ [(f, c)] @ ys" and "list_all py_isnan c"
  shows "cols (dropna_all d) = filter (\<lambda>c. \<not> list_all py_isnan (snd c)) (cols d)
       \<and> df_rms d freqs output = df_rms (d\<lparr>cols := xs @ ys\<rparr>) freqs output"
proof -
  have nex: "(\<lambda>c. list_ex (\<lambda>v. \<not> py_isnan v) (snd c))
             = (\<lambda>c::pyfloat \<times> pyfloat list. \<not> list_all py_isnan (snd c))"
    by (auto simp: list_ex_iff list_all_iff)
  have eq: "dropna_all d = dropna_all (d\<lparr>cols := xs @ ys\<rparr>)"
    using assms by (simp add: dropna_all_def nex)
  have kept: "cols (dropna_all d) = filter (\<lambda>c. \<not> list_all py_isnan (snd c)) (cols d)"
    by (simp add: dropna_all_def nex)
  have "df_rms d freqs output = df_rms (d\<lparr>cols := xs @ ys\<rparr>) freqs output"
    unfolding df_rms_def eq by (rule refl)
  with kept show ?thesis by (rule conjI)
qed

theorem df_rms_drops_missing_columns_witness:
  "cols example_gap = [(Fin 1, [Fin (- 100), Fin (- 120)])] @ [(Fin (3 / 2), [NaN, NaN])]
                      @ [(Fin 2, [Fin (- 110), Fin (- 130)])]
   \<and> list_all py_isnan [NaN, NaN]
   \<and> py_le (Fin 1) (Fin (3 / 2)) \<and> py_le (Fin (3 / 2)) (Fin 20)
   \<and> cols (dropna_all example_gap)
       = [(Fin 1, [Fin (- 100), Fin (- 120)]), (Fin 2, [Fin (- 110), Fin (- 130)])]
   \<and> df_rms example_gap [(Fin 1, Fin 20)] ''DISP''
       = df_rms (example_gap\<lparr>cols := [(Fin 1, [Fin (- 100), Fin (- 120)])]
                                       @ [(Fin 2, [Fin (- 110), Fin (- 130)])]\<rparr>)
                [(Fin 1, Fin 20)] ''DISP''"
proof -
  have c: "cols example_gap = [(Fin 1, [Fin (- 100), Fin (- 120)])] @ [(Fin (3 / 2), [NaN, NaN])]
                      @ [(Fin 2, [Fin (- 110), Fin (- 130)])]"
    by (simp add: example_gap_def)
  have n: "list_all py_isnan [NaN, NaN]"
    by simp
  show ?thesis
    using df_rms_drops_missing_columns [OF c n, of "[(Fin 1, Fin 20)]" "''DISP''"] c n
    by (simp add: example_gap_def)
qed

text \<open>
  C10. The argument \<^verbatim>\<open>output\<close> is not validated: every string other than \<^verbatim>\<open>"ACC"\<close> and
  \<^verbatim>\<open>"VEL"\<close> gives the result of \<^verbatim>\<open>"DISP"\<close>, the displacement series of the specification;
  when the argument is omitted, \<^verbatim>\<open>"VEL"\<close> is used.
\<close>

theorem df_rms_output_not_validated:
  assumes "output \<noteq> ''ACC''" and "output \<noteq> ''VEL''"
  shows "df_rms d freqs output = df_rms d freqs ''DISP''
       \<and> (well_formed d \<and> (fmin, fmax) \<in> set freqs \<and> distinct (band_labels freqs) \<longrightarrow>
            map_of (cols (df_rms d freqs output)) (band_label fmin fmax)
              = Some (spec_series (dropna_all d) fmin fmax DISPLACEMENT))
       \<and> df_rms_default d freqs = df_rms d freqs ''VEL''"
proof -
  have "band_series d' band output = band_series d' band ''DISP''"
    for d' :: "('a, pyfloat) dataframe" and band
    using assms by (simp add: band_series_def)
  then have "df_rms d freqs output = df_rms d freqs ''DISP''"
    by (simp add: df_rms_def rms_dict_def)
  moreover have "map_of (cols (df_rms d freqs output)) (band_label fmin fmax)
              = Some (spec_series (dropna_all d) fmin fmax DISPLACEMENT)"
    if "well_formed d" "(fmin, fmax) \<in> set freqs" "distinct (band_labels freqs)"
    using that assms
    by (simp add: df_rms_band_column band_series_values well_formed_dropna unit_of_def)
  ultimately show ?thesis
    by (simp add: df_rms_default_def)
qed

theorem df_rms_output_not_validated_witness:
  "''DISPLACEMENT'' \<noteq> ''ACC'' \<and> ''DISPLACEMENT'' \<noteq> ''VEL''
   \<and> well_formed example_psd \<and> (Fin 1, Fin 20) \<in> set freqs_of_interest
   \<and> distinct (band_labels freqs_of_interest)
   \<and> df_rms example_psd freqs_of_interest ''DISPLACEMENT''
       = df_rms example_psd freqs_of_interest ''DISP''
   \<and> map_of (cols (df_rms example_psd freqs_of_interest ''DISPLACEMENT'')) ''1.0-20.0''
       = Some (spec_series (dropna_all example_psd) (Fin 1) (Fin 20) DISPLACEMENT)
   \<and> df_rms_default example_psd freqs_of_interest = df_rms example_psd freqs_of_interest ''VEL''"
proof -
  have ne: "''DISPLACEMENT'' \<noteq> ''ACC''" "''DISPLACEMENT'' \<noteq> ''VEL''"
    by simp_all
  have wf: "well_formed example_psd"
    by (simp add: well_formed_def example_psd_def)
  have mem: "(Fin 1, Fin 20) \<in> set freqs_of_interest"
    by (simp add: freqs_of_interest_def)
  have dist: "distinct (band_labels freqs_of_interest)"
    by (simp add: freqs_of_interest_def band_labels_def label_eval)
  have lab: "band_label (Fin 1) (Fin 20) = ''1.0-20.0''"
    by (simp add: label_eval)
  show ?thesis
    using df_rms_output_not_validated [OF ne, of example_psd freqs_of_interest "Fin 1" "Fin 20"]
      ne wf mem dist
    unfolding lab by blast
qed

text \<open>
  C5, as stated, fails: in the first row of \<open>example_partial\<close> the band from 1 Hz to 2 Hz
  selects a missing cell and a finite one, the three amplitudes of that row are NaN, and
  NaN is not below NaN.
\<close>

theorem unit_monotonicity_counterexample:
  "py_le (Fin 1) (Fin 1) \<and> py_le (Fin 1) (Fin 2) \<and> py_le (Fin 2) (Fin 2)
   \<and> cols (dropna_all example_partial)
       = [(Fin 1, [NaN, Fin (- 100)]), (Fin 2, [Fin (- 110), Fin (- 110)])]
   \<and> rms_value (df_rms example_partial [(Fin 1, Fin 2)] ''DISP'') ''1.0-2.0'' 0 = Some NaN
   \<and> rms_value (df_rms example_partial [(Fin 1, Fin 2)] ''VEL'') ''1.0-2.0'' 0 = Some NaN
   \<and> rms_value (df_rms example_partial [(Fin 1, Fin 2)] ''ACC'') ''1.0-2.0'' 0 = Some NaN
   \<and> \<not> py_le NaN NaN"
  by (simp add: rms_value_def df_rms_def rms_dict_def example_partial_def dropna_all_def band_series_def
        iloc_cols_def map_cells_def div_columns_def apply_rows_def dfrms_def trapz_def np_diff_def
        np_sum_def label_eval Let_def py_square_def)

text \<open>
  C5, amended. On a table with columns sorted ascending, for a row in which every selected
  cell is finite and every selected frequency is finite and at least 1 Hz, the displacement
  amplitude is at most the velocity amplitude, which is at most the acceleration amplitude.
\<close>

theorem unit_monotonicity:
  assumes "well_formed d" and "(fmin, fmax) \<in> set freqs" and "distinct (band_labels freqs)"
    and "i < length (index d)"
    and "sorted_wrt (\<lambda>c c'. py_le (fst c) (fst c')) (cols d)"
    and "\<forall>c\<in>set (cols (dropna_all d)). py_le fmin (fst c) \<and> py_le (fst c) fmax \<longrightarrow>
           (\<exists>x b. fst c = Fin x \<and> 1 \<le> x \<and> snd c ! i = Fin b)"
  shows "\<exists>disp vel acc.
           rms_value (df_rms d freqs ''DISP'') (band_label fmin fmax) i = Some disp
         \<and> rms_value (df_rms d freqs ''VEL'') (band_label fmin fmax) i = Some vel
         \<and> rms_value (df_rms d freqs ''ACC'') (band_label fmin fmax) i = Some acc
         \<and> py_le disp vel \<and> py_le vel acc"
proof -
  have srt: "sorted_wrt (\<lambda>c c'. py_le (fst c) (fst c')) (cols (dropna_all d))"
    using assms(5) by (simp add: dropna_all_def sorted_wrt_filter)
  note v = df_rms_spec_value [OF assms(1-4)]
  show ?thesis
    using spec_rms_monotone [OF srt assms(6)] by (simp add: v unit_of_def)
qed

theorem unit_monotonicity_witness:
  "well_formed example_psd \<and> (Fin 1, Fin 2) \<in> set [(Fin 1, Fin 2)]
   \<and> distinct (band_labels [(Fin 1, Fin 2)]) \<and> 0 < length (index example_psd)
   \<and> sorted_wrt (\<lambda>c c'. py_le (fst c) (fst c')) (cols example_psd)
   \<and> cols (dropna_all example_psd) = [(Fin 1, [Fin (- 100)]), (Fin 2, [Fin (- 110)])]
   \<and> (1::real) \<le> 1 \<and> (1::real) \<le> 2
   \<and> (\<exists>disp vel acc.
           rms_value (df_rms example_psd [(Fin 1, Fin 2)] ''DISP'') ''1.0-2.0'' 0 = Some disp
         \<and> rms_value (df_rms example_psd [(Fin 1, Fin 2)] ''VEL'') ''1.0-2.0'' 0 = Some vel
         \<and> rms_value (df_rms example_psd [(Fin 1, Fin 2)] ''ACC'') ''1.0-2.0'' 0 = Some acc
         \<and> py_le disp vel \<and> py_le vel acc)"
proof -
  have wf: "well_formed example_psd"
    by (simp add: well_formed_def example_psd_def)
  have mem: "(Fin 1, Fin 2) \<in> set [(Fin 1, Fin 2)]"
    by simp
  have dist: "distinct (band_labels [(Fin 1, Fin 2)])"
    by (simp add: band_labels_def)
  have i: "0 < length (index example_psd)"
    by (simp add: example_psd_def)
  have srt: "sorted_wrt (\<lambda>c c'. py_le (fst c) (fst c')) (cols example_psd)"
    by (simp add: example_psd_def)
  have fin: "\<forall>c\<in>set (cols (dropna_all example_psd)). py_le (Fin 1) (fst c) \<and> py_le (fst c) (Fin 2) \<longrightarrow>
           (\<exists>x b. fst c = Fin x \<and> 1 \<le> x \<and> snd c ! 0 = Fin b)"
    by (simp add: example_psd_def dropna_all_def)
  have lab: "band_label (Fin 1) (Fin 2) = ''1.0-2.0''"
    by (simp add: label_eval)
  have cl: "cols (dropna_all example_psd) = [(Fin 1, [Fin (- 100)]), (Fin 2, [Fin (- 110)])]"
    by (simp add: example_psd_def dropna_all_def)
  have ge: "(1::real) \<le> 1" "(1::real) \<le> 2"
    by simp_all
  show ?thesis
    using unit_monotonicity [OF wf mem dist i srt fin] wf mem dist i srt cl ge
    unfolding lab by blast
qed

text \<open>
  The ascending order of the columns is needed as well: with the columns of \<open>example_psd\<close>
  in descending order the integral is negative and the amplitudes are NaN.
\<close>

lemma unsorted_columns_give_nan:
  "rms_value (df_rms example_unsorted [(Fin 1, Fin 2)] ''VEL'') ''1.0-2.0'' 0 = Some NaN
   \<and> rms_value (df_rms example_unsorted [(Fin 1, Fin 2)] ''ACC'') ''1.0-2.0'' 0 = Some NaN"
proof -
  have wf: "well_formed example_unsorted"
    by (simp add: well_formed_def example_unsorted_def)
  have lab: "band_label (Fin 1) (Fin 2) = ''1.0-2.0''"
    by (simp add: label_eval)
  have v: "rms_value (df_rms example_unsorted [(Fin 1, Fin 2)] out) ''1.0-2.0'' 0
        = Some (spec_rms (dropna_all example_unsorted) (Fin 1) (Fin 2) (unit_of out) 0)" for out
    using df_rms_spec_value [OF wf, of "Fin 1" "Fin 2" "[(Fin 1, Fin 2)]" 0 out]
    by (simp add: lab band_labels_def example_unsorted_def)
  have tr: "spec_trapezoid [(Fin 2, Fin a), (Fin 1, Fin b)] = Fin (- ((a + b) / 2))" for a b
    by (simp add: field_simps)
  have neg: "np_sqrt (spec_trapezoid [(Fin 2, Fin a), (Fin 1, Fin b)]) = NaN" if "0 < a" "0 < b" for a b
    unfolding tr using that by (intro np_sqrt_negative) simp
  have acc: "spec_rms (dropna_all example_unsorted) (Fin 1) (Fin 2) ACCELERATION 0 = NaN"
    by (simp add: spec_rms_def example_unsorted_def dropna_all_def spec_power_def del: spec_trapezoid.simps np_sqrt.simps)
       (rule neg, simp_all)
  have vel: "spec_rms (dropna_all example_unsorted) (Fin 1) (Fin 2) VELOCITY 0 = NaN"
    by (simp add: spec_rms_def example_unsorted_def dropna_all_def spec_power_def py_square_def
          del: spec_trapezoid.simps np_sqrt.simps)
       (rule neg, simp_all)
  show ?thesis
    by (simp add: v unit_of_def acc vel)
qed

text \<open>
  C2, as stated, fails: \<^verbatim>\<open>df_rms\<close> has no check of its inputs. With no band it returns a
  table without columns, and on a table without rows and columns it returns one empty
  column for the band.
\<close>

theorem df_rms_empty_input_counterexample:
  "df_rms example_psd [] ''VEL'' = \<lparr>index = [0], cols = []\<rparr>
   \<and> df_rms \<lparr>index = [] :: nat list, cols = []\<rparr> [(Fin 1, Fin 20)] ''VEL''
       = \<lparr>index = [], cols = [(''1.0-20.0'', [])]\<rparr>"
  by (simp add: df_rms_def rms_dict_def example_psd_def dropna_all_def band_series_def
        iloc_cols_def map_cells_def div_columns_def apply_rows_def label_eval Let_def)

text \<open>
  C2, amended. For an empty band list \<^verbatim>\<open>df_rms\<close> returns the table with the row index of
  its input and no column. For a table without rows or without columns it returns a table
  with the row index of its input and one column for each band label, holding 0.0 in every
  row.
\<close>

theorem df_rms_empty_input:
  "df_rms d [] output = \<lparr>index = index d, cols = []\<rparr>
   \<and> (index d = [] \<or> cols d = [] \<longrightarrow>
        index (df_rms d freqs output) = index d
      \<and> set (map fst (cols (df_rms d freqs output))) = set (band_labels freqs)
      \<and> list_all (\<lambda>c. snd c = replicate (length (index d)) (Fin 0)) (cols (df_rms d freqs output)))"
proof -
  have a: "df_rms d [] output = \<lparr>index = index d, cols = []\<rparr>"
    by (simp add: df_rms_def rms_dict_def dropna_all_def)
  have keys: "set (map fst (cols (df_rms d freqs output))) = set (band_labels freqs)"
    using rms_dict_keys [of "dropna_all d" freqs "output" "[]"]
    by (simp add: df_rms_cols band_labels_def image_image)
  have zero: "s_values (band_series (dropna_all d) b output) = replicate (length (index d)) (Fin 0)"
    if e: "index d = [] \<or> cols d = []" for b
  proof (cases "cols d = []")
    case True
    then have "length (filter (\<lambda>c. py_le (fst b) (fst c) \<and> py_le (fst c) (snd b))
                 (cols (dropna_all d))) \<le> 1"
      by (simp add: dropna_all_def)
    from band_series_short [OF this] show ?thesis
      by (simp add: dropna_all_def)
  next
    case False
    with e have i: "index d = []" by simp
    have "length (s_values (band_series (dropna_all d) b output)) = length (index (dropna_all d))"
      by (rule length_band_series)
    also have "\<dots> = 0"
      using i by (simp add: dropna_all_def)
    finally have "s_values (band_series (dropna_all d) b output) = []"
      by (simp only: length_0_conv)
    then show ?thesis
      using i by simp
  qed
  have all: "list_all (\<lambda>c. snd c = replicate (length (index d)) (Fin 0))
               (cols (df_rms d freqs output))"
    if e: "index d = [] \<or> cols d = []"
  proof -
    have "v = replicate (length (index d)) (Fin 0)"
      if "(k, v) \<in> set (cols (df_rms d freqs output))" for k v
    proof -
      have "map_of (cols (df_rms d freqs output)) k = Some v"
        using that df_rms_labels_distinct [of d freqs "output"] by simp
      then show ?thesis
        using zero [OF e] by (auto simp: df_rms_lookup split: option.splits)
    qed
    then show ?thesis
      by (auto simp: list_all_iff)
  qed
  show ?thesis
    using a keys all by (simp add: df_rms_index)
qed

theorem df_rms_empty_input_witness:
  "df_rms example_psd [] ''VEL'' = \<lparr>index = index example_psd, cols = []\<rparr>
   \<and> (index (example_psd\<lparr>cols := []\<rparr>) = [] \<or> cols (example_psd\<lparr>cols := []\<rparr>) = [])
   \<and> index (df_rms (example_psd\<lparr>cols := []\<rparr>) freqs_of_interest ''VEL'') = [0]
   \<and> set (map fst (cols (df_rms (example_psd\<lparr>cols := []\<rparr>) freqs_of_interest ''VEL'')))
       = set (band_labels freqs_of_interest)
   \<and> list_all (\<lambda>c. snd c = [Fin 0]) (cols (df_rms (example_psd\<lparr>cols := []\<rparr>) freqs_of_interest ''VEL''))"
  using df_rms_empty_input [of example_psd "''VEL''" "[]"]
        df_rms_empty_input [of "example_psd\<lparr>cols := []\<rparr>" "''VEL''" freqs_of_interest]
  by (simp add: example_psd_def)

text \<open>
  C3, as stated, fails: a band with \<open>fmin > fmax\<close> is not rejected; it selects no column and
  its series holds 0.0.
\<close>

theorem df_rms_inverted_band_counterexample:
  "py_le (Fin 1) (Fin 2)
   \<and> df_rms example_psd [(Fin 2, Fin 1)] ''VEL'' = \<lparr>index = [0], cols = [(''2.0-1.0'', [Fin 0])]\<rparr>"
  by (simp add: df_rms_def rms_dict_def example_psd_def dropna_all_def band_series_def
        iloc_cols_def map_cells_def div_columns_def apply_rows_def dfrms_def trapz_def np_diff_def
        np_sum_def label_eval Let_def)

text \<open>
  C3, amended. A band with \<open>fmin \<ge> fmax\<close> is accepted. On a table with unique column
  frequencies it selects at most one column of the cleaned table, and none when
  \<open>fmin \<noteq> fmax\<close>; the series computed for it holds 0.0 in every row; the result has a
  column with the band's label, and this column holds that series whenever no later band of
  the list has the same label.
\<close>

theorem df_rms_inverted_band:
  assumes "py_le fmax fmin" and "distinct (map fst (cols d))" and "(fmin, fmax) \<in> set freqs"
  shows "length (filter (\<lambda>c. py_le fmin (fst c) \<and> py_le (fst c) fmax) (cols (dropna_all d))) \<le> 1
       \<and> (fmin \<noteq> fmax \<longrightarrow>
            filter (\<lambda>c. py_le fmin (fst c) \<and> py_le (fst c) fmax) (cols (dropna_all d)) = [])
       \<and> s_values (band_series (dropna_all d) (fmin, fmax) output)
           = replicate (length (index d)) (Fin 0)
       \<and> band_label fmin fmax \<in> set (map fst (cols (df_rms d freqs output)))
       \<and> (\<forall>pre post. freqs = pre @ [(fmin, fmax)] @ post
                      \<and> band_label fmin fmax \<notin> set (band_labels post) \<longrightarrow>
            map_of (cols (df_rms d freqs output)) (band_label fmin fmax)
              = Some (replicate (length (index d)) (Fin 0)))"
proof -
  let ?sel = "filter (\<lambda>c. py_le fmin (fst c) \<and> py_le (fst c) fmax) (cols (dropna_all d))"
  have "distinct (map fst (cols (dropna_all d)))"
    using assms(2) by (simp add: dropna_all_def distinct_map_filter)
  then have dist: "distinct (map fst ?sel)"
    by (rule distinct_map_filter)
  have bounds: "fst c = fmin \<and> fmin = fmax" if "c \<in> set ?sel" for c
  proof -
    from that have lo: "py_le fmin (fst c)" and hi: "py_le (fst c) fmax" by simp_all
    from hi assms(1) have "py_le (fst c) fmin" by (rule py_le_trans)
    with lo have "fmin = fst c" by (rule py_le_antisym)
    moreover from lo hi have "py_le fmin fmax" by (rule py_le_trans)
    then have "fmin = fmax" using assms(1) by (rule py_le_antisym)
    ultimately show ?thesis by simp
  qed
  then have "\<forall>c\<in>set ?sel. fst c = fmin" by blast
  with dist have one: "length ?sel \<le> 1"
    by (rule length_le_one_same_key)
  have none: "?sel = []" if "fmin \<noteq> fmax"
  proof (cases ?sel)
    case Nil
    then show ?thesis .
  next
    case (Cons c cs)
    then have "c \<in> set ?sel" by simp
    from bounds [OF this] that show ?thesis by simp
  qed
  from band_series_short [OF one]
  have zero: "s_values (band_series (dropna_all d) (fmin, fmax) output)
              = replicate (length (index d)) (Fin 0)"
    by (simp add: dropna_all_def)
  have lab: "band_label fmin fmax \<in> set (map fst (cols (df_rms d freqs output)))"
    unfolding df_rms_labels using assms(3) by (force simp: band_labels_def)
  have col: "map_of (cols (df_rms d freqs output)) (band_label fmin fmax)
              = Some (replicate (length (index d)) (Fin 0))"
    if "freqs = pre @ [(fmin, fmax)] @ post" "band_label fmin fmax \<notin> set (band_labels post)"
    for pre post
    using df_rms_last_column [of freqs pre "(fmin, fmax)" post d "output"] that zero by simp
  show ?thesis
    using one none zero lab col by blast
qed

theorem df_rms_inverted_band_witness:
  "py_le (Fin 1) (Fin 2) \<and> distinct (map fst (cols example_gap))
   \<and> (Fin 2, Fin 1) \<in> set [(Fin 1, Fin 2), (Fin 2, Fin 1)]
   \<and> Fin 2 \<noteq> Fin 1
   \<and> [(Fin 1, Fin 2), (Fin 2, Fin 1)] = [(Fin 1, Fin 2)] @ [(Fin 2, Fin 1)] @ []
   \<and> ''2.0-1.0'' \<notin> set (band_labels [])
   \<and> filter (\<lambda>c. py_le (Fin 2) (fst c) \<and> py_le (fst c) (Fin 1)) (cols (dropna_all example_gap)) = []
   \<and> s_values (band_series (dropna_all example_gap) (Fin 2, Fin 1) ''DISP'') = [Fin 0, Fin 0]
   \<and> ''2.0-1.0'' \<in> set (map fst (cols (df_rms example_gap [(Fin 1, Fin 2), (Fin 2, Fin 1)] ''DISP'')))
   \<and> map_of (cols (df_rms example_gap [(Fin 1, Fin 2), (Fin 2, Fin 1)] ''DISP'')) ''2.0-1.0''
       = Some [Fin 0, Fin 0]"
proof -
  have le: "py_le (Fin 1) (Fin 2)" by simp
  have dc: "distinct (map fst (cols example_gap))"
    by (simp add: example_gap_def)
  have mem: "(Fin 2, Fin 1) \<in> set [(Fin 1, Fin 2), (Fin 2, Fin 1)]" by simp
  have ne: "Fin 2 \<noteq> Fin 1" by simp
  have fr: "[(Fin 1, Fin 2), (Fin 2, Fin 1)] = [(Fin 1, Fin 2)] @ [(Fin 2, Fin 1)] @ []"
    by simp
  have post: "''2.0-1.0'' \<notin> set (band_labels [])"
    by (simp add: band_labels_def)
  have lab: "band_label (Fin 2) (Fin 1) = ''2.0-1.0''"
    by (simp add: label_eval)
  have n: "replicate (length (index example_gap)) (Fin 0) = [Fin 0, Fin 0]"
    by (simp add: example_gap_def numeral_2_eq_2)
  note t = df_rms_inverted_band [OF le dc mem, of "''DISP''", unfolded lab n]
  from t ne have a: "filter (\<lambda>c. py_le (Fin 2) (fst c) \<and> py_le (fst c) (Fin 1))
                       (cols (dropna_all example_gap)) = []"
    by blast
  from t have b: "s_values (band_series (dropna_all example_gap) (Fin 2, Fin 1) ''DISP'')
                  = [Fin 0, Fin 0]"
    by blast
  from t have c: "''2.0-1.0'' \<in> set (map fst (cols (df_rms example_gap
                     [(Fin 1, Fin 2), (Fin 2, Fin 1)] ''DISP'')))"
    by blast
  from t have "\<forall>pre post. [(Fin 1, Fin 2), (Fin 2, Fin 1)] = pre @ [(Fin 2, Fin 1)] @ post
                      \<and> ''2.0-1.0'' \<notin> set (band_labels post) \<longrightarrow>
            map_of (cols (df_rms example_gap [(Fin 1, Fin 2), (Fin 2, Fin 1)] ''DISP'')) ''2.0-1.0''
              = Some [Fin 0, Fin 0]"
    by blast
  from this [rule_format, OF conjI, OF fr post]
  have e: "map_of (cols (df_rms example_gap [(Fin 1, Fin 2), (Fin 2, Fin 1)] ''DISP'')) ''2.0-1.0''
       = Some [Fin 0, Fin 0]" .
  show ?thesis
    using le dc mem ne fr post a b c e by blast
qed

text \<open>
  C4, as stated, fails in what the degenerate band yields: for a band with no column in its
  range the series is neither empty nor NaN, it holds 0.0 for the row of \<open>example_psd\<close>.
\<close>

theorem df_rms_band_without_column_counterexample:
  "filter (\<lambda>c. py_le (Fin 5) (fst c) \<and> py_le (fst c) (Fin 6)) (cols (dropna_all example_psd)) = []
   \<and> df_rms example_psd [(Fin 5, Fin 6)] ''VEL'' = \<lparr>index = [0], cols = [(''5.0-6.0'', [Fin 0])]\<rparr>
   \<and> [Fin 0] \<noteq> [] \<and> \<not> py_isnan (Fin 0)"
  by (simp add: df_rms_def rms_dict_def example_psd_def dropna_all_def band_series_def
        iloc_cols_def map_cells_def div_columns_def apply_rows_def dfrms_def trapz_def np_diff_def
        np_sum_def label_eval Let_def)

text \<open>
  C4, amended. For a band whose range contains no frequency column of the cleaned table,
  \<^verbatim>\<open>df_rms\<close> returns normally. The series computed for that band holds 0.0 in every row (so
  it is empty only for a table without rows). The result has a column with the band's label,
  and this column holds that series whenever no later band of the list has the same label.
  Every column with another label is the column that the result has when the degenerate
  band is left out of the list.
\<close>

theorem df_rms_band_without_column:
  assumes "\<forall>c\<in>set (cols (dropna_all d)). \<not> (py_le fmin (fst c) \<and> py_le (fst c) fmax)"
    and "(fmin, fmax) \<in> set freqs"
  shows "s_values (band_series (dropna_all d) (fmin, fmax) output)
           = replicate (length (index d)) (Fin 0)
       \<and> band_label fmin fmax \<in> set (map fst (cols (df_rms d freqs output)))
       \<and> (\<forall>pre post. freqs = pre @ [(fmin, fmax)] @ post
                      \<and> band_label fmin fmax \<notin> set (band_labels post) \<longrightarrow>
            map_of (cols (df_rms d freqs output)) (band_label fmin fmax)
              = Some (replicate (length (index d)) (Fin 0)))
       \<and> (\<forall>l. l \<noteq> band_label fmin fmax \<longrightarrow>
            map_of (cols (df_rms d freqs output)) l
              = map_of (cols (df_rms d (removeAll (fmin, fmax) freqs) output)) l)"
proof -
  have "filter (\<lambda>c. py_le fmin (fst c) \<and> py_le (fst c) fmax) (cols (dropna_all d)) = []"
    using assms(1) by (auto simp: filter_empty_conv)
  then have "length (filter (\<lambda>c. py_le fmin (fst c) \<and> py_le (fst c) fmax)
                       (cols (dropna_all d))) \<le> 1"
    by simp
  from band_series_short [OF this]
  have zero: "s_values (band_series (dropna_all d) (fmin, fmax) output)
              = replicate (length (index d)) (Fin 0)"
    by (simp add: dropna_all_def)
  have lab: "band_label fmin fmax \<in> set (map fst (cols (df_rms d freqs output)))"
    unfolding df_rms_labels using assms(2) by (force simp: band_labels_def)
  have col: "map_of (cols (df_rms d freqs output)) (band_label fmin fmax)
              = Some (replicate (length (index d)) (Fin 0))"
    if "freqs = pre @ [(fmin, fmax)] @ post" "band_label fmin fmax \<notin> set (band_labels post)"
    for pre post
    using df_rms_last_column [of freqs pre "(fmin, fmax)" post d "output"] that zero by simp
  have other: "map_of (cols (df_rms d freqs output)) l
              = map_of (cols (df_rms d (removeAll (fmin, fmax) freqs) output)) l"
    if "l \<noteq> band_label fmin fmax" for l
    using df_rms_other_labels [of l "(fmin, fmax)" d freqs "output"] that by simp
  show ?thesis
    using zero lab col other by blast
qed

theorem df_rms_band_without_column_witness:
  "filter (\<lambda>c. py_le (Fin 5) (fst c) \<and> py_le (fst c) (Fin 6)) (cols (dropna_all example_psd)) = []
   \<and> (Fin 5, Fin 6) \<in> set [(Fin 1, Fin 2), (Fin 5, Fin 6)]
   \<and> [(Fin 1, Fin 2), (Fin 5, Fin 6)] = [(Fin 1, Fin 2)] @ [(Fin 5, Fin 6)] @ []
   \<and> ''5.0-6.0'' \<notin> set (band_labels [])
   \<and> ''1.0-2.0'' \<noteq> ''5.0-6.0''
   \<and> s_values (band_series (dropna_all example_psd) (Fin 5, Fin 6) ''VEL'') = [Fin 0]
   \<and> ''5.0-6.0'' \<in> set (map fst (cols (df_rms example_psd [(Fin 1, Fin 2), (Fin 5, Fin 6)] ''VEL'')))
   \<and> map_of (cols (df_rms example_psd [(Fin 1, Fin 2), (Fin 5, Fin 6)] ''VEL'')) ''5.0-6.0''
       = Some [Fin 0]
   \<and> map_of (cols (df_rms example_psd [(Fin 1, Fin 2), (Fin 5, Fin 6)] ''VEL'')) ''1.0-2.0''
       = map_of (cols (df_rms example_psd [(Fin 1, Fin 2)] ''VEL'')) ''1.0-2.0''"
proof -
  have none: "\<forall>c\<in>set (cols (dropna_all example_psd)).
                \<not> (py_le (Fin 5) (fst c) \<and> py_le (fst c) (Fin 6))"
    by (simp add: example_psd_def dropna_all_def)
  have sel: "filter (\<lambda>c. py_le (Fin 5) (fst c) \<and> py_le (fst c) (Fin 6))
               (cols (dropna_all example_psd)) = []"
    by (simp add: example_psd_def dropna_all_def)
  have mem: "(Fin 5, Fin 6) \<in> set [(Fin 1, Fin 2), (Fin 5, Fin 6)]" by simp
  have fr: "[(Fin 1, Fin 2), (Fin 5, Fin 6)] = [(Fin 1, Fin 2)] @ [(Fin 5, Fin 6)] @ []"
    by simp
  have post: "''5.0-6.0'' \<notin> set (band_labels [])"
    by (simp add: band_labels_def)
  have ne: "''1.0-2.0'' \<noteq> ''5.0-6.0''" by simp
  have lab: "band_label (Fin 5) (Fin 6) = ''5.0-6.0''"
    by (simp add: label_eval)
  have n: "replicate (length (index example_psd)) (Fin 0) = [Fin 0]"
    by (simp add: example_psd_def)
  have r: "removeAll (Fin 5, Fin 6) [(Fin 1, Fin 2), (Fin 5, Fin 6)] = [(Fin 1, Fin 2)]"
    by simp
  note t = df_rms_band_without_column [OF none mem, of "''VEL''", unfolded lab n r]
  from t have a: "s_values (band_series (dropna_all example_psd) (Fin 5, Fin 6) ''VEL'') = [Fin 0]"
    by blast
  from t have b: "''5.0-6.0'' \<in> set (map fst (cols (df_rms example_psd
                     [(Fin 1, Fin 2), (Fin 5, Fin 6)] ''VEL'')))"
    by blast
  from t have "\<forall>pre post. [(Fin 1, Fin 2), (Fin 5, Fin 6)] = pre @ [(Fin 5, Fin 6)] @ post
                      \<and> ''5.0-6.0'' \<notin> set (band_labels post) \<longrightarrow>
            map_of (cols (df_rms example_psd [(Fin 1, Fin 2), (Fin 5, Fin 6)] ''VEL'')) ''5.0-6.0''
              = Some [Fin 0]"
    by blast
  from this [rule_format, OF conjI, OF fr post]
  have c: "map_of (cols (df_rms example_psd [(Fin 1, Fin 2), (Fin 5, Fin 6)] ''VEL'')) ''5.0-6.0''
       = Some [Fin 0]" .
  from t have "\<forall>l. l \<noteq> ''5.0-6.0'' \<longrightarrow>
            map_of (cols (df_rms example_psd [(Fin 1, Fin 2), (Fin 5, Fin 6)] ''VEL'')) l
              = map_of (cols (df_rms example_psd [(Fin 1, Fin 2)] ''VEL'')) l"
    by blast
  from this [rule_format, OF ne]
  have e: "map_of (cols (df_rms example_psd [(Fin 1, Fin 2), (Fin 5, Fin 6)] ''VEL'')) ''1.0-2.0''
       = map_of (cols (df_rms example_psd [(Fin 1, Fin 2)] ''VEL'')) ''1.0-2.0''" .
  show ?thesis
    using sel mem fr post ne a b c e by blast
qed

text \<open>
  A band that has the label of the degenerate band shares its column: after the band from
  1 Hz to 2 Hz, the band from 1.04 Hz to 1.96 Hz has the same label and no column, and the
  column \<^verbatim>\<open>1.0-2.0\<close> holds 0.0.
\<close>

lemma degenerate_band_takes_shared_label:
  "band_label (Fin 1) (Fin 2) = ''1.0-2.0''
   \<and> band_label (Fin (26 / 25)) (Fin (49 / 25)) = ''1.0-2.0''
   \<and> filter (\<lambda>c. py_le (Fin (26 / 25)) (fst c) \<and> py_le (fst c) (Fin (49 / 25)))
        (cols (dropna_all example_psd)) = []
   \<and> map_of (cols (df_rms example_psd [(Fin 1, Fin 2), (Fin (26 / 25), Fin (49 / 25))] ''ACC''))
        ''1.0-2.0'' = Some [Fin 0]"
proof -
  have l1: "band_label (Fin 1) (Fin 2) = ''1.0-2.0''"
    by (simp add: label_eval)
  have l2: "band_label (Fin (26 / 25)) (Fin (49 / 25)) = ''1.0-2.0''"
    by (simp add: label_eval)
  have sel: "filter (\<lambda>c. py_le (Fin (26 / 25)) (fst c) \<and> py_le (fst c) (Fin (49 / 25)))
        (cols (dropna_all example_psd)) = []"
    by (simp add: example_psd_def dropna_all_def)
  then have "length (filter (\<lambda>c. py_le (Fin (26 / 25)) (fst c) \<and> py_le (fst c) (Fin (49 / 25)))
        (cols (dropna_all example_psd))) \<le> 1"
    by simp
  from band_series_short [OF this]
  have zero: "s_values (band_series (dropna_all example_psd) (Fin (26 / 25), Fin (49 / 25)) ''ACC'')
              = [Fin 0]"
    by (simp add: dropna_all_def example_psd_def)
  have "map_of (cols (df_rms example_psd [(Fin 1, Fin 2), (Fin (26 / 25), Fin (49 / 25))] ''ACC''))
          (band_label (fst (Fin (26 / 25), Fin (49 / 25))) (snd (Fin (26 / 25), Fin (49 / 25))))
        = Some (s_values (band_series (dropna_all example_psd) (Fin (26 / 25), Fin (49 / 25)) ''ACC''))"
    by (rule df_rms_last_column [where pre = "[(Fin 1, Fin 2)]" and post = "[]"])
       (simp_all add: band_labels_def)
  then have "map_of (cols (df_rms example_psd [(Fin 1, Fin 2), (Fin (26 / 25), Fin (49 / 25))] ''ACC''))
        ''1.0-2.0'' = Some [Fin 0]"
    unfolding fst_conv snd_conv l2 zero .
  with l1 l2 sel show ?thesis by blast
qed

text \<open>
  C6, as stated, fails: \<^verbatim>\<open>df_rms\<close> integrates over the columns in the order in which the
  table has them. With the two columns of \<open>example_psd\<close> exchanged the integral is negative
  and the amplitude is NaN.
\<close>

theorem df_rms_column_order_counterexample:
  "cols example_unsorted = rev (cols example_psd) \<and> index example_unsorted = index example_psd
   \<and> df_rms example_unsorted [(Fin 1, Fin 2)] ''ACC''
       = \<lparr>index = [0], cols = [(''1.0-2.0'', [NaN])]\<rparr>
   \<and> df_rms example_psd [(Fin 1, Fin 2)] ''ACC''
       = \<lparr>index = [0], cols = [(''1.0-2.0'', [Fin (sqrt ((10 powr (- 10) + 10 powr (- 11)) / 2))])]\<rparr>"
proof -
  have "0 < 10 powr (- 11) + 10 powr (- 10 :: real)"
    by (intro add_pos_pos) simp_all
  then have neg: "- (10 powr (- 11) + 10 powr (- 10)) / 2 < (0::real)"
    by simp
  have pos: "\<not> (10 powr (- 10) + 10 powr (- 11)) / 2 < (0::real)"
    by (simp add: not_less add_nonneg_nonneg)
  show ?thesis
    using neg pos
    by (simp add: df_rms_def rms_dict_def example_psd_def example_unsorted_def dropna_all_def band_series_def
        iloc_cols_def map_cells_def apply_rows_def dfrms_def trapz_def np_diff_def
        np_sum_def label_eval Let_def add.commute)
qed

text \<open>
  C6, amended. \<^verbatim>\<open>df_rms\<close> expects its columns in ascending order of frequency, and the
  caller sorts them (\<^verbatim>\<open>sort_index(axis=1)\<close>) before the call. For a table with unique
  column frequencies, every permutation of the columns gives the same result once the columns
  are sorted, for \<^verbatim>\<open>df_rms\<close> on the sorted table and for the caller's \<open>displacement_RMS\<close>.
\<close>

theorem sorted_df_rms_column_order:
  assumes "mset (cols d') = mset (cols d)" and "index d' = index d"
    and "distinct (map fst (cols d))"
  shows "df_rms (sort_index_columns d') freqs output = df_rms (sort_index_columns d) freqs output
       \<and> displacement_RMS d' = displacement_RMS d"
proof -
  let ?key = "\<lambda>c::pyfloat \<times> pyfloat list. sort_rank (fst c)"
  have set_eq: "set (cols d') = set (cols d)"
    using assms(1) by (rule mset_eq_setD)
  have "mset (map fst (cols d')) = mset (map fst (cols d))"
    using assms(1) by (metis mset_map)
  then have dist': "distinct (map fst (cols d'))"
    using assms(3) by (metis mset_eq_imp_distinct_iff)
  have inj: "inj_on ?key (set (cols d))"
    using assms(3) inj_sort_rank by (auto simp: distinct_map inj_on_def dest: injD)
  have dk: "distinct (map ?key (cols d))" "distinct (map ?key (cols d'))"
    using assms(3) dist' inj set_eq by (simp_all add: distinct_map)
  have "sort_key ?key (cols d') = sort_key ?key (cols d)"
  proof (rule map_sorted_distinct_set_unique [where f = ?key])
    show "inj_on ?key (set (sort_key ?key (cols d')) \<union> set (sort_key ?key (cols d)))"
      using inj set_eq by simp
    show "sorted (map ?key (sort_key ?key (cols d')))" "sorted (map ?key (sort_key ?key (cols d)))"
      by simp_all
    show "distinct (map ?key (sort_key ?key (cols d')))"
      using dk(2) by (simp add: distinct_map)
    show "distinct (map ?key (sort_key ?key (cols d)))"
      using dk(1) by (simp add: distinct_map)
    show "set (sort_key ?key (cols d')) = set (sort_key ?key (cols d))"
      using set_eq by simp
  qed
  then have "sort_index_columns d' = sort_index_columns d"
    using assms(2) by (simp add: sort_index_columns_def)
  then show ?thesis
    by (simp add: displacement_RMS_def)
qed

theorem sorted_df_rms_column_order_witness:
  "mset (cols example_unsorted) = mset (cols example_psd)
   \<and> index example_unsorted = index example_psd
   \<and> distinct (map fst (cols example_psd))
   \<and> df_rms (sort_index_columns example_unsorted) [(Fin 1, Fin 2)] ''ACC''
       = df_rms (sort_index_columns example_psd) [(Fin 1, Fin 2)] ''ACC''
   \<and> displacement_RMS example_unsorted = displacement_RMS example_psd"
proof -
  have m: "mset (cols example_unsorted) = mset (cols example_psd)"
    by (simp add: example_unsorted_def example_psd_def)
  have i: "index example_unsorted = index example_psd"
    by (simp add: example_unsorted_def example_psd_def)
  have dc: "distinct (map fst (cols example_psd))"
    by (simp add: example_psd_def)
  show ?thesis
    using sorted_df_rms_column_order [OF m i dc, of "[(Fin 1, Fin 2)]" "''ACC''"] m i dc
    by blast
qed

text \<open>
  C9. When two distinct bands of the list have the same label, and no band after the second
  has it, the result has exactly one column with that label, and the column holds the
  series computed for the second band.
\<close>

theorem df_rms_duplicate_label:
  assumes "freqs = pre @ [b1] @ mid @ [b2] @ post" and "b1 \<noteq> b2"
    and "band_label (fst b1) (snd b1) = l" and "band_label (fst b2) (snd b2) = l"
    and "l \<notin> set (band_labels post)"
  shows "length (filter (\<lambda>c. fst c = l) (cols (df_rms d freqs output))) = 1
       \<and> map_of (cols (df_rms d freqs output)) l
           = Some (s_values (band_series (dropna_all d) b2 output))"
proof -
  have fr: "freqs = (pre @ [b1] @ mid) @ b2 # post"
    using assms(1) by simp
  have "\<forall>b\<in>set post. band_label (fst b) (snd b) \<noteq> l"
    using assms(5) by (auto simp: band_labels_def)
  then have "find (\<lambda>b. band_label (fst b) (snd b) = l) (rev freqs) = Some b2"
    unfolding fr using assms(4) by (rule find_last)
  then have look: "map_of (cols (df_rms d freqs output)) l
           = Some (s_values (band_series (dropna_all d) b2 output))"
    by (simp add: df_rms_lookup)
  then have "l \<in> fst ` set (cols (df_rms d freqs output))"
    by (metis map_of_eq_None_iff option.distinct(1))
  with df_rms_labels_distinct
  have "length (filter (\<lambda>c. fst c = l) (cols (df_rms d freqs output))) = 1"
    by (rule count_distinct_key)
  then show ?thesis using look by (rule conjI)
qed

theorem df_rms_duplicate_label_witness:
  "[(Fin 1, Fin 2), (Fin (26 / 25), Fin 2)] = [] @ [(Fin 1, Fin 2)] @ [] @ [(Fin (26 / 25), Fin 2)] @ []
   \<and> (Fin 1, Fin 2) \<noteq> (Fin (26 / 25), Fin 2)
   \<and> band_label (Fin 1) (Fin 2) = ''1.0-2.0'' \<and> band_label (Fin (26 / 25)) (Fin 2) = ''1.0-2.0''
   \<and> ''1.0-2.0'' \<notin> set (band_labels [])
   \<and> length (filter (\<lambda>c. fst c = ''1.0-2.0'')
               (cols (df_rms example_psd [(Fin 1, Fin 2), (Fin (26 / 25), Fin 2)] ''ACC''))) = 1
   \<and> map_of (cols (df_rms example_psd [(Fin 1, Fin 2), (Fin (26 / 25), Fin 2)] ''ACC'')) ''1.0-2.0''
       = Some (s_values (band_series (dropna_all example_psd) (Fin (26 / 25), Fin 2) ''ACC''))"
proof -
  have fr: "[(Fin 1, Fin 2), (Fin (26 / 25), Fin 2)]
            = [] @ [(Fin 1, Fin 2)] @ [] @ [(Fin (26 / 25), Fin 2)] @ []"
    by simp
  have ne: "(Fin 1, Fin 2) \<noteq> (Fin (26 / 25), Fin 2)"
    by simp
  have l1: "band_label (fst (Fin 1, Fin 2)) (snd (Fin 1, Fin 2)) = ''1.0-2.0''"
    by (simp add: label_eval)
  have l2: "band_label (fst (Fin (26 / 25), Fin 2)) (snd (Fin (26 / 25), Fin 2)) = ''1.0-2.0''"
    by (simp add: label_eval)
  have post: "''1.0-2.0'' \<notin> set (band_labels [])"
    by (simp add: band_labels_def)
  have l1': "band_label (Fin 1) (Fin 2) = ''1.0-2.0''"
    using l1 by (simp only: fst_conv snd_conv)
  have l2': "band_label (Fin (26 / 25)) (Fin 2) = ''1.0-2.0''"
    using l2 by (simp only: fst_conv snd_conv)
  show ?thesis
    using df_rms_duplicate_label [OF fr ne l1 l2 post, of example_psd "''ACC''"] fr ne l1' l2' post
    by blast
qed

end
